theory Spec2Isabelle
  imports Main "HOL-Library.Word"
begin

section \<open>Host objects, foreign pointers and the primitive call surface\<close>

text \<open>
  A host object (a \<open>Lifetime\<close>, a \<open>Scope\<close>) is identified by a reference; a foreign
  value is a raw pointer, a number handed to and returned by the primitives. A host
  \<open>number\<close> is carried as its 64-bit pattern: the code only passes numbers through.
\<close>

type_synonym ref = nat
type_synonym pointer = nat
type_synonym float64 = "64 word"

datatype host_value =
    HUndefined
  | HNull
  | HBool bool
  | HNumber float64
  | HString string
  | HArray "host_value list"
  | HObject "(string \<times> host_value) list"

record js_error =
  err_name :: "string option"
  err_message :: "string option"
  err_stack :: "string option"

text \<open>What a host \<open>throw\<close> can carry: an \<open>Error\<close> object, a handle, or a dumped value.\<close>

datatype host_exn =
    JSError js_error
  | ThrownHandle ref
  | ThrownValue host_value

datatype property_key = KeyNumber float64 | KeyString string | KeyHandle ref

datatype eval_options = OptionsNumber nat | OptionsObject nat

text \<open>
  The calls that leave the host: the \<open>QTS_*\<close> primitives of \<open>this.ffi\<close> with their
  arguments, and the allocator of the foreign module's heap used by \<open>ModuleMemory\<close>.
\<close>

datatype call =
    QTS_DupValuePointer pointer pointer
  | QTS_FreeValuePointer pointer pointer
  | QTS_GetUndefined
  | QTS_GetGlobalObject pointer
  | QTS_NewFloat64 pointer float64
  | QTS_NewString pointer pointer
  | QTS_NewObject pointer
  | QTS_NewObjectProto pointer pointer
  | QTS_NewFunction pointer nat string
  | QTS_NewError pointer
  | QTS_Typeof pointer pointer
  | QTS_GetFloat64 pointer pointer
  | QTS_GetString pointer pointer
  | QTS_GetProp pointer pointer pointer
  | QTS_SetProp pointer pointer pointer pointer
  | QTS_Call pointer pointer pointer nat pointer
  | QTS_ResolveException pointer pointer
  | QTS_Eval pointer pointer string nat nat
  | QTS_Throw pointer pointer
  | QTS_Dump pointer pointer
  | QTS_ArgvGetJSValueConstPointer pointer nat
  | Module_newHeapCharPointer string
  | Module_newPointerArray "pointer list"
  | Module_free pointer

record quickjs_context =
  self :: nat
  ctx :: ref
  rt :: ref
  memory_scope :: nat

datatype lifetime_kind = Owned | Static | Weak

datatype copier = CopyJSValue quickjs_context

datatype disposer = FreeJSValue quickjs_context | ModuleFree

record lifetime =
  lt_value :: pointer
  lt_owner :: "nat option"
  lt_alive :: bool
  lt_kind :: lifetime_kind
  lt_copier :: "copier option"
  lt_disposer :: "disposer option"

record scope =
  managed :: "ref list"
  sc_alive :: bool

record VmCallResult =
  res_value :: "ref option"
  res_error :: "ref option"

text \<open>
  A registered implementation is a host closure: one supplied by the user of the
  context, or one of the two closures \<open>resolvePromise\<close> creates around the
  \<open>resolve\<close> function of a host promise.
\<close>

datatype impl_ref = HostFunction nat | ResolveWithValue nat | ResolveWithError nat

datatype promise_value = PVoid | PResult VmCallResult

datatype promise_state = Pending | Fulfilled promise_value | Rejected host_exn

record world =
  heap :: "ref \<Rightarrow> lifetime"
  next_ref :: ref
  scopes :: "nat \<Rightarrow> scope"
  next_scope :: nat
  trace :: "call list"
  fnMap :: "nat \<Rightarrow> impl_ref option"
  fnNextId :: nat
  c_undefined :: "ref option"
  c_global :: "ref option"
  promises :: "nat \<Rightarrow> promise_state"
  next_promise :: nat
  applied :: "impl_ref list"

datatype impl_result = RetVoid | RetHandle ref | RetResult VmCallResult

text \<open>
  The collaborators the code consumes, as parameters: what each primitive returns (as a
  function of the number of calls made before it and of the call itself), the host's \<open>JSON.parse\<close>
  (\<open>None\<close> when it throws), \<open>evalOptionsToFlags\<close>, and the host implementations
  registered as callbacks, each a transformer of the world that returns or raises.
\<close>

record env =
  ptr_result :: "nat \<Rightarrow> call \<Rightarrow> pointer"
  str_result :: "nat \<Rightarrow> call \<Rightarrow> string"
  num_result :: "nat \<Rightarrow> call \<Rightarrow> float64"
  json_parse :: "string \<Rightarrow> host_value option"
  heap_string_of :: "host_value \<Rightarrow> string"
  evalOptionsToFlags :: "eval_options option \<Rightarrow> nat"
  host_impl :: "nat \<Rightarrow> ref \<Rightarrow> ref list \<Rightarrow> world \<Rightarrow> (host_exn + impl_result) \<times> world"

section \<open>Actions: state passing with host exceptions\<close>

type_synonym 'a action = "world \<Rightarrow> (host_exn + 'a) \<times> world"

definition ret :: "'a \<Rightarrow> 'a action" where
  "ret x = (\<lambda>s. (Inr x, s))"

definition raise :: "host_exn \<Rightarrow> 'a action" where
  "raise e = (\<lambda>s. (Inl e, s))"

definition andThen :: "'a action \<Rightarrow> ('a \<Rightarrow> 'b action) \<Rightarrow> 'b action" where
  "andThen m f = (\<lambda>s. case m s of (Inl e, s1) \<Rightarrow> (Inl e, s1) | (Inr x, s1) \<Rightarrow> f x s1)"

text \<open>\<open>try { m } finally { cleanup }\<close>: an exception of the cleanup replaces the outcome.\<close>

definition ensuring :: "'a action \<Rightarrow> unit action \<Rightarrow> 'a action" where
  "ensuring m cleanup =
     (\<lambda>s. case m s of (r, s1) \<Rightarrow>
        (case cleanup s1 of (Inl e, s2) \<Rightarrow> (Inl e, s2) | (Inr u, s2) \<Rightarrow> (r, s2)))"

definition recover :: "'a action \<Rightarrow> (host_exn \<Rightarrow> 'a action) \<Rightarrow> 'a action" where
  "recover m h = (\<lambda>s. case m s of (Inl e, s1) \<Rightarrow> h e s1 | (Inr x, s1) \<Rightarrow> (Inr x, s1))"

definition new_Error :: "string \<Rightarrow> host_exn" where
  "new_Error msg = JSError \<lparr>err_name = Some ''Error'', err_message = Some msg, err_stack = Some []\<rparr>"

definition ffi_ptr :: "env \<Rightarrow> call \<Rightarrow> pointer action" where
  "ffi_ptr E c = (\<lambda>s. (Inr (ptr_result E (length (trace s)) c), s\<lparr>trace := trace s @ [c]\<rparr>))"

definition ffi_str :: "env \<Rightarrow> call \<Rightarrow> string action" where
  "ffi_str E c = (\<lambda>s. (Inr (str_result E (length (trace s)) c), s\<lparr>trace := trace s @ [c]\<rparr>))"

definition ffi_num :: "env \<Rightarrow> call \<Rightarrow> float64 action" where
  "ffi_num E c = (\<lambda>s. (Inr (num_result E (length (trace s)) c), s\<lparr>trace := trace s @ [c]\<rparr>))"

definition ffi_void :: "call \<Rightarrow> unit action" where
  "ffi_void c = (\<lambda>s. (Inr (), s\<lparr>trace := trace s @ [c]\<rparr>))"

section \<open>Lifetime, StaticLifetime, WeakLifetime\<close>

text \<open>
  Modelled from the spec: the classes \<open>Lifetime\<close>, \<open>StaticLifetime\<close> and \<open>WeakLifetime\<close>
  of \<open>./lifetime\<close> are not among the sources. Sections 3 and 4.1 to 4.3 give them:
  reading \<open>value\<close> on a dead Lifetime fails with a use-after-dispose error; \<open>dispose\<close>
  returns at once when not alive, otherwise invokes \<open>free(value)\<close> if present and marks
  the Lifetime dead; \<open>consume(fn)\<close> invokes \<open>fn(self)\<close> and disposes \<open>self\<close> whether
  \<open>fn\<close> returns or raises; a StaticLifetime is permanently alive and its disposal does
  nothing; disposing a WeakLifetime is a no-op.
\<close>

definition use_after_dispose :: host_exn where
  "use_after_dispose = new_Error ''Lifetime not alive''"

definition alloc :: "lifetime \<Rightarrow> ref action" where
  "alloc l = (\<lambda>s. (Inr (next_ref s),
     s\<lparr>heap := (heap s)(next_ref s := l), next_ref := Suc (next_ref s)\<rparr>))"

definition new_Lifetime ::
  "pointer \<Rightarrow> copier option \<Rightarrow> disposer option \<Rightarrow> nat option \<Rightarrow> ref action" where
  "new_Lifetime v c d ow =
     alloc \<lparr>lt_value = v, lt_owner = ow, lt_alive = True, lt_kind = Owned,
            lt_copier = c, lt_disposer = d\<rparr>"

definition new_StaticLifetime :: "pointer \<Rightarrow> nat option \<Rightarrow> ref action" where
  "new_StaticLifetime v ow =
     alloc \<lparr>lt_value = v, lt_owner = ow, lt_alive = True, lt_kind = Static,
            lt_copier = None, lt_disposer = None\<rparr>"

definition new_WeakLifetime ::
  "pointer \<Rightarrow> copier option \<Rightarrow> disposer option \<Rightarrow> nat option \<Rightarrow> ref action" where
  "new_WeakLifetime v c d ow =
     alloc \<lparr>lt_value = v, lt_owner = ow, lt_alive = True, lt_kind = Weak,
            lt_copier = c, lt_disposer = d\<rparr>"

definition alive :: "ref \<Rightarrow> world \<Rightarrow> bool" where
  "alive h s = (lt_kind (heap s h) = Static \<or> lt_alive (heap s h))"

definition val :: "ref \<Rightarrow> pointer action" where
  "val h = (\<lambda>s. if alive h s then (Inr (lt_value (heap s h)), s) else (Inl use_after_dispose, s))"

fun vals :: "ref list \<Rightarrow> pointer list action" where
  "vals [] = ret []"
| "vals (h # hs) = andThen (val h) (\<lambda>p. andThen (vals hs) (\<lambda>ps. ret (p # ps)))"

text \<open>
  \<open>QuickJSContextMemory.copyJSValue\<close> and \<open>freeJSValue\<close>: the closures a heap value
  handle is built with. Each reads \<open>this.ctx.value\<close> of the context that made it.
\<close>

definition copyJSValue :: "env \<Rightarrow> quickjs_context \<Rightarrow> pointer \<Rightarrow> pointer action" where
  "copyJSValue E C p = andThen (val (ctx C)) (\<lambda>cp. ffi_ptr E (QTS_DupValuePointer cp p))"

definition freeJSValue :: "quickjs_context \<Rightarrow> pointer \<Rightarrow> unit action" where
  "freeJSValue C p = andThen (val (ctx C)) (\<lambda>cp. ffi_void (QTS_FreeValuePointer cp p))"

fun run_disposer :: "disposer \<Rightarrow> pointer \<Rightarrow> unit action" where
  "run_disposer (FreeJSValue C) p = freeJSValue C p"
| "run_disposer ModuleFree p = ffi_void (Module_free p)"

definition mark_dead :: "ref \<Rightarrow> unit action" where
  "mark_dead h = (\<lambda>s. (Inr (), s\<lparr>heap := (heap s)(h := (heap s h)\<lparr>lt_alive := False\<rparr>)\<rparr>))"

definition dispose :: "ref \<Rightarrow> unit action" where
  "dispose h = (\<lambda>s.
     case lt_kind (heap s h) of
       Static \<Rightarrow> (Inr (), s)
     | Weak \<Rightarrow> (Inr (), s)
     | Owned \<Rightarrow>
         if \<not> lt_alive (heap s h) then (Inr (), s)
         else andThen
                (case lt_disposer (heap s h) of
                   None \<Rightarrow> ret ()
                 | Some d \<Rightarrow> run_disposer d (lt_value (heap s h)))
                (\<lambda>u. mark_dead h) s)"

definition consume :: "ref \<Rightarrow> (ref \<Rightarrow> 'a action) \<Rightarrow> 'a action" where
  "consume h f = ensuring (f h) (dispose h)"

section \<open>Scope\<close>

text \<open>
  Modelled from the spec: the class \<open>Scope\<close> of \<open>./lifetime\<close> is not among the sources.
  Section 4.4 gives it: \<open>manage\<close> registers a lifetime and returns it, and fails on a
  disposed Scope; \<open>dispose\<close> is idempotent and disposes the managed entries in reverse
  registration order, attempting all of them and re-raising a failure afterwards (here
  the first one met); \<open>withScope(fn)\<close> creates a Scope, runs \<open>fn(scope)\<close> and disposes
  the Scope on every exit path.
\<close>

definition new_Scope :: "nat action" where
  "new_Scope = (\<lambda>s. (Inr (next_scope s),
     s\<lparr>scopes := (scopes s)(next_scope s := \<lparr>managed = [], sc_alive = True\<rparr>),
       next_scope := Suc (next_scope s)\<rparr>))"

definition manage :: "nat \<Rightarrow> ref \<Rightarrow> ref action" where
  "manage sid h = (\<lambda>s.
     if sc_alive (scopes s sid)
     then (Inr h, s\<lparr>scopes := (scopes s)(sid := (scopes s sid)\<lparr>managed := managed (scopes s sid) @ [h]\<rparr>)\<rparr>)
     else (Inl (new_Error ''Scope already disposed''), s))"

fun dispose_each :: "ref list \<Rightarrow> world \<Rightarrow> host_exn option \<times> world" where
  "dispose_each [] s = (None, s)"
| "dispose_each (h # hs) s =
     (case dispose h s of (r, s1) \<Rightarrow>
        (case dispose_each hs s1 of (e, s2) \<Rightarrow>
           ((case r of Inl x \<Rightarrow> Some x | Inr u \<Rightarrow> e), s2)))"

definition scope_dispose :: "nat \<Rightarrow> unit action" where
  "scope_dispose sid = (\<lambda>s.
     if \<not> sc_alive (scopes s sid) then (Inr (), s)
     else (case dispose_each (rev (managed (scopes s sid))) s of (e, s1) \<Rightarrow>
        ((case e of None \<Rightarrow> Inr () | Some x \<Rightarrow> Inl x),
         s1\<lparr>scopes := (scopes s1)(sid := (scopes s1 sid)\<lparr>sc_alive := False\<rparr>)\<rparr>)))"

definition withScope :: "(nat \<Rightarrow> 'a action) \<Rightarrow> 'a action" where
  "withScope block = andThen new_Scope (\<lambda>sid. ensuring (block sid) (scope_dispose sid))"

section \<open>ModuleMemory\<close>

text \<open>
  Modelled from the spec: \<open>ModuleMemory\<close> of \<open>./memory\<close> is not among the sources.
  Section 4.5 gives its encoders: a sequence of handles becomes a transient contiguous
  array of their raw values in the foreign heap, a host string a transient buffer there;
  each is a Lifetime whose disposal releases the storage.
\<close>

definition newHeapCharPointer :: "env \<Rightarrow> string \<Rightarrow> ref action" where
  "newHeapCharPointer E str =
     andThen (ffi_ptr E (Module_newHeapCharPointer str))
       (\<lambda>p. new_Lifetime p None (Some ModuleFree) None)"

definition toPointerArray :: "env \<Rightarrow> ref list \<Rightarrow> ref action" where
  "toPointerArray E hs =
     andThen (vals hs) (\<lambda>ps.
     andThen (ffi_ptr E (Module_newPointerArray ps))
       (\<lambda>p. new_Lifetime p None (Some ModuleFree) None))"

section \<open>QuickJSContextMemory\<close>

definition assertOwned :: "quickjs_context \<Rightarrow> ref \<Rightarrow> unit action" where
  "assertOwned C h = (\<lambda>s.
     if lt_owner (heap s h) \<noteq> None \<and> lt_owner (heap s h) \<noteq> Some (self C)
     then (Inl (new_Error ''Given handle created by a different VM''), s)
     else (Inr (), s))"

definition heapValueHandle :: "quickjs_context \<Rightarrow> pointer \<Rightarrow> ref action" where
  "heapValueHandle C p =
     new_Lifetime p (Some (CopyJSValue C)) (Some (FreeJSValue C)) (Some (self C))"

section \<open>QuickJSContext\<close>

text \<open>The getters \<open>undefined\<close> and \<open>global\<close>, each with its cache field.\<close>

definition undefined_getter :: "env \<Rightarrow> ref action" where
  "undefined_getter E = (\<lambda>s.
     case c_undefined s of
       Some h \<Rightarrow> (Inr h, s)
     | None \<Rightarrow>
         andThen (ffi_ptr E QTS_GetUndefined) (\<lambda>p.
         andThen (new_StaticLifetime p None) (\<lambda>h.
           (\<lambda>s1. (Inr h, s1\<lparr>c_undefined := Some h\<rparr>)))) s)"

definition global_getter :: "env \<Rightarrow> quickjs_context \<Rightarrow> ref action" where
  "global_getter E C = (\<lambda>s.
     case c_global s of
       Some h \<Rightarrow> (Inr h, s)
     | None \<Rightarrow>
         andThen (val (ctx C)) (\<lambda>cp.
         andThen (ffi_ptr E (QTS_GetGlobalObject cp)) (\<lambda>p.
         andThen (heapValueHandle C p) (\<lambda>h.
         andThen (manage (memory_scope C) h) (\<lambda>m.
         andThen (new_StaticLifetime p (Some (self C))) (\<lambda>g.
           (\<lambda>s1. (Inr g, s1\<lparr>c_global := Some g\<rparr>))))))) s)"

definition newNumber :: "env \<Rightarrow> quickjs_context \<Rightarrow> float64 \<Rightarrow> ref action" where
  "newNumber E C num =
     andThen (val (ctx C)) (\<lambda>cp.
     andThen (ffi_ptr E (QTS_NewFloat64 cp num)) (\<lambda>p.
     heapValueHandle C p))"

definition newString :: "env \<Rightarrow> quickjs_context \<Rightarrow> string \<Rightarrow> ref action" where
  "newString E C str =
     andThen (newHeapCharPointer E str) (\<lambda>buf.
     andThen (consume buf (\<lambda>charHandle.
                andThen (val (ctx C)) (\<lambda>cp.
                andThen (val charHandle) (\<lambda>bp.
                ffi_ptr E (QTS_NewString cp bp))))) (\<lambda>p.
     heapValueHandle C p))"

definition newObject :: "env \<Rightarrow> quickjs_context \<Rightarrow> ref option \<Rightarrow> ref action" where
  "newObject E C prototype =
     andThen (case prototype of Some pr \<Rightarrow> assertOwned C pr | None \<Rightarrow> ret ()) (\<lambda>u.
     andThen (case prototype of
                Some pr \<Rightarrow>
                  andThen (val (ctx C)) (\<lambda>cp.
                  andThen (val pr) (\<lambda>pp.
                  ffi_ptr E (QTS_NewObjectProto cp pp)))
              | None \<Rightarrow>
                  andThen (val (ctx C)) (\<lambda>cp. ffi_ptr E (QTS_NewObject cp))) (\<lambda>p.
     heapValueHandle C p))"

definition newFunction :: "env \<Rightarrow> quickjs_context \<Rightarrow> string \<Rightarrow> impl_ref \<Rightarrow> ref action" where
  "newFunction E C name fn =
     andThen (\<lambda>s. (Inr (Suc (fnNextId s)),
                s\<lparr>fnNextId := Suc (fnNextId s),
                  fnMap := (fnMap s)(Suc (fnNextId s) := Some fn)\<rparr>)) (\<lambda>fnId.
     andThen (val (ctx C)) (\<lambda>cp.
     andThen (ffi_ptr E (QTS_NewFunction cp fnId name)) (\<lambda>p.
     heapValueHandle C p)))"

definition typeof :: "env \<Rightarrow> quickjs_context \<Rightarrow> ref \<Rightarrow> string action" where
  "typeof E C h =
     andThen (assertOwned C h) (\<lambda>u.
     andThen (val (ctx C)) (\<lambda>cp.
     andThen (val h) (\<lambda>p.
     ffi_str E (QTS_Typeof cp p))))"

definition getNumber :: "env \<Rightarrow> quickjs_context \<Rightarrow> ref \<Rightarrow> float64 action" where
  "getNumber E C h =
     andThen (assertOwned C h) (\<lambda>u.
     andThen (val (ctx C)) (\<lambda>cp.
     andThen (val h) (\<lambda>p.
     ffi_num E (QTS_GetFloat64 cp p))))"

definition getString :: "env \<Rightarrow> quickjs_context \<Rightarrow> ref \<Rightarrow> string action" where
  "getString E C h =
     andThen (assertOwned C h) (\<lambda>u.
     andThen (val (ctx C)) (\<lambda>cp.
     andThen (val h) (\<lambda>p.
     ffi_str E (QTS_GetString cp p))))"

fun borrowPropertyKey :: "env \<Rightarrow> quickjs_context \<Rightarrow> property_key \<Rightarrow> ref action" where
  "borrowPropertyKey E C (KeyNumber n) = newNumber E C n"
| "borrowPropertyKey E C (KeyString k) = newString E C k"
| "borrowPropertyKey E C (KeyHandle h) =
     andThen (val h) (\<lambda>p. new_StaticLifetime p (Some (self C)))"

definition getProp :: "env \<Rightarrow> quickjs_context \<Rightarrow> ref \<Rightarrow> property_key \<Rightarrow> ref action" where
  "getProp E C h key =
     andThen (assertOwned C h) (\<lambda>u.
     andThen (borrowPropertyKey E C key) (\<lambda>k.
     andThen (consume k (\<lambda>quickJSKey.
                andThen (val (ctx C)) (\<lambda>cp.
                andThen (val h) (\<lambda>hp.
                andThen (val quickJSKey) (\<lambda>kp.
                ffi_ptr E (QTS_GetProp cp hp kp)))))) (\<lambda>p.
     heapValueHandle C p)))"

definition setProp ::
  "env \<Rightarrow> quickjs_context \<Rightarrow> ref \<Rightarrow> property_key \<Rightarrow> ref \<Rightarrow> unit action" where
  "setProp E C h key v =
     andThen (assertOwned C h) (\<lambda>u.
     andThen (borrowPropertyKey E C key) (\<lambda>k.
     consume k (\<lambda>quickJSKey.
       andThen (val (ctx C)) (\<lambda>cp.
       andThen (val h) (\<lambda>hp.
       andThen (val quickJSKey) (\<lambda>kp.
       andThen (val v) (\<lambda>vp.
       ffi_void (QTS_SetProp cp hp kp vp))))))))"

text \<open>
  The tail shared by \<open>callFunction\<close> and \<open>evalCode\<close>: ask the runtime whether the
  result is an exception and build the one branch of the outcome.
\<close>

definition resolveResult :: "env \<Rightarrow> quickjs_context \<Rightarrow> pointer \<Rightarrow> VmCallResult action" where
  "resolveResult E C resultPtr =
     andThen (val (ctx C)) (\<lambda>cp.
     andThen (ffi_ptr E (QTS_ResolveException cp resultPtr)) (\<lambda>errorPtr.
     if errorPtr \<noteq> 0
     then andThen (val (ctx C)) (\<lambda>cp2.
          andThen (ffi_void (QTS_FreeValuePointer cp2 resultPtr)) (\<lambda>u.
          andThen (heapValueHandle C errorPtr) (\<lambda>h.
          ret \<lparr>res_value = None, res_error = Some h\<rparr>)))
     else andThen (heapValueHandle C resultPtr) (\<lambda>h.
          ret \<lparr>res_value = Some h, res_error = None\<rparr>)))"

definition callFunction ::
  "env \<Rightarrow> quickjs_context \<Rightarrow> ref \<Rightarrow> ref \<Rightarrow> ref list \<Rightarrow> VmCallResult action" where
  "callFunction E C func thisVal args =
     andThen (assertOwned C func) (\<lambda>u.
     andThen (toPointerArray E args) (\<lambda>arr.
     andThen (consume arr (\<lambda>argsArrayPtr.
                andThen (val (ctx C)) (\<lambda>cp.
                andThen (val func) (\<lambda>fp.
                andThen (val thisVal) (\<lambda>tp.
                andThen (val argsArrayPtr) (\<lambda>ap.
                ffi_ptr E (QTS_Call cp fp tp (length args) ap))))))) (\<lambda>resultPtr.
     resolveResult E C resultPtr)))"

definition evalCode ::
  "env \<Rightarrow> quickjs_context \<Rightarrow> string \<Rightarrow> string option \<Rightarrow> eval_options option
     \<Rightarrow> VmCallResult action" where
  "evalCode E C code filename options =
     (let file = (case filename of None \<Rightarrow> ''eval.js'' | Some f \<Rightarrow> f);
          detectModule = (if options = None then 1 else 0);
          flags = evalOptionsToFlags E options
      in andThen (newHeapCharPointer E code) (\<lambda>buf.
         andThen (consume buf (\<lambda>charHandle.
                    andThen (val (ctx C)) (\<lambda>cp.
                    andThen (val charHandle) (\<lambda>bp.
                    ffi_ptr E (QTS_Eval cp bp file detectModule flags))))) (\<lambda>resultPtr.
         resolveResult E C resultPtr)))"

definition dump :: "env \<Rightarrow> quickjs_context \<Rightarrow> ref \<Rightarrow> host_value action" where
  "dump E C h =
     andThen (assertOwned C h) (\<lambda>u.
     andThen (typeof E C h) (\<lambda>type.
     if type = ''string'' then andThen (getString E C h) (\<lambda>str. ret (HString str))
     else if type = ''number'' then andThen (getNumber E C h) (\<lambda>n. ret (HNumber n))
     else if type = ''undefined'' then ret HUndefined
     else andThen (val (ctx C)) (\<lambda>cp.
          andThen (val h) (\<lambda>p.
          andThen (ffi_str E (QTS_Dump cp p)) (\<lambda>str.
          case json_parse E str of Some v \<Rightarrow> ret v | None \<Rightarrow> ret (HString str))))))"

definition unwrapResult :: "env \<Rightarrow> quickjs_context \<Rightarrow> VmCallResult \<Rightarrow> ref option action" where
  "unwrapResult E C result =
     (case res_error result of
        Some err \<Rightarrow>
          andThen (consume err (\<lambda>error. dump E C error)) (\<lambda>dumped.
            case dumped of
              HObject props \<Rightarrow>
                (case map_of props ''message'' of
                   Some (HString msg) \<Rightarrow>
                     raise (JSError
                       \<lparr>err_name = Some (case map_of props ''name'' of
                                           Some (HString n) \<Rightarrow> n
                                         | _ \<Rightarrow> ''Error''),
                        err_message = Some msg, err_stack = Some []\<rparr>)
                 | _ \<Rightarrow> raise (ThrownValue dumped))
            | _ \<Rightarrow> raise (ThrownValue dumped))
      | None \<Rightarrow> ret (res_value result))"

text \<open>
  \<open>errorToHandle\<close>. Its parameter is typed \<open>Error | QuickJSHandle\<close>, and the bridge
  hands it whatever was thrown (\<open>error as Error\<close>). For a thrown value that is neither,
  \<open>error_view\<close> gives what reading \<open>name\<close>, \<open>message\<close> and \<open>stack\<close> off it yields:
  nothing on \<open>undefined\<close> or \<open>null\<close> (the read itself throws), the properties of an
  object, and \<open>undefined\<close> on every other value.
\<close>

definition type_error :: host_exn where
  "type_error = JSError \<lparr>err_name = Some ''TypeError'',
     err_message = Some ''Cannot read properties of undefined'', err_stack = Some []\<rparr>"

definition prop_string :: "env \<Rightarrow> (string \<times> host_value) list \<Rightarrow> string \<Rightarrow> string option" where
  "prop_string E props k =
     (case map_of props k of
        None \<Rightarrow> None
      | Some HUndefined \<Rightarrow> None
      | Some (HString str) \<Rightarrow> Some str
      | Some x \<Rightarrow> Some (heap_string_of E x))"

fun error_view :: "env \<Rightarrow> host_value \<Rightarrow> js_error option" where
  "error_view E HUndefined = None"
| "error_view E HNull = None"
| "error_view E (HObject props) =
     Some \<lparr>err_name = prop_string E props ''name'',
           err_message = prop_string E props ''message'',
           err_stack = prop_string E props ''stack''\<rparr>"
| "error_view E v = Some \<lparr>err_name = None, err_message = None, err_stack = None\<rparr>"

text \<open>
  The body of \<open>errorToHandle\<close> after its \<open>instanceof Lifetime\<close> test, on what the
  thrown value reads as: the foreign error object is created and wrapped first, then
  \<open>name\<close>, \<open>message\<close> and \<open>stack\<close> are read, which throws on \<open>undefined\<close> and \<open>null\<close>.
\<close>

definition errorToHandle_Error ::
  "env \<Rightarrow> quickjs_context \<Rightarrow> js_error option \<Rightarrow> ref action" where
  "errorToHandle_Error E C view =
     andThen (val (ctx C)) (\<lambda>cp.
     andThen (ffi_ptr E (QTS_NewError cp)) (\<lambda>p.
     andThen (heapValueHandle C p) (\<lambda>errorHandle.
     case view of
       None \<Rightarrow> raise type_error
     | Some error \<Rightarrow>
         andThen (case err_name error of
                    None \<Rightarrow> ret ()
                  | Some name \<Rightarrow>
                      andThen (newString E C name) (\<lambda>h.
                      consume h (\<lambda>handle.
                        setProp E C errorHandle (KeyString ''name'') handle))) (\<lambda>u.
         andThen (case err_message error of
                    None \<Rightarrow> ret ()
                  | Some message \<Rightarrow>
                      andThen (newString E C message) (\<lambda>h.
                      consume h (\<lambda>handle.
                        setProp E C errorHandle (KeyString ''message'') handle))) (\<lambda>u2.
         andThen (case err_stack error of None \<Rightarrow> ret () | Some stack \<Rightarrow> ret ()) (\<lambda>u3.
         ret errorHandle))))))"

fun errorToHandle :: "env \<Rightarrow> quickjs_context \<Rightarrow> host_exn \<Rightarrow> ref action" where
  "errorToHandle E C (ThrownHandle h) = ret h"
| "errorToHandle E C (JSError error) = errorToHandle_Error E C (Some error)"
| "errorToHandle E C (ThrownValue v) = errorToHandle_Error E C (error_view E v)"

definition throw :: "env \<Rightarrow> quickjs_context \<Rightarrow> host_exn \<Rightarrow> pointer action" where
  "throw E C error =
     andThen (errorToHandle E C error) (\<lambda>eh.
     consume eh (\<lambda>handle.
       andThen (val (ctx C)) (\<lambda>cp.
       andThen (val handle) (\<lambda>hp.
       ffi_ptr E (QTS_Throw cp hp)))))"

section \<open>The callback bridge\<close>

text \<open>
  Modelled from the spec: \<open>dup\<close> of \<open>./lifetime\<close> (sections 4.1 to 4.3): it requires
  an alive Lifetime, invokes the foreign duplicate primitive on the value and returns a
  new owned Lifetime sharing owner, dup and free; on a StaticLifetime it returns a new
  StaticLifetime over the same raw value without a foreign call.
\<close>

fun run_copier :: "env \<Rightarrow> copier \<Rightarrow> pointer \<Rightarrow> pointer action" where
  "run_copier E (CopyJSValue C) p = copyJSValue E C p"

definition dup :: "env \<Rightarrow> ref \<Rightarrow> ref action" where
  "dup E h = (\<lambda>s.
     case lt_kind (heap s h) of
       Static \<Rightarrow> new_StaticLifetime (lt_value (heap s h)) (lt_owner (heap s h)) s
     | _ \<Rightarrow>
         if \<not> lt_alive (heap s h) then (Inl (new_Error ''Lifetime already disposed''), s)
         else (case lt_copier (heap s h) of
                 None \<Rightarrow> (Inl (new_Error ''Non-dupable lifetime''), s)
               | Some c \<Rightarrow>
                   andThen (run_copier E c (lt_value (heap s h))) (\<lambda>p.
                     new_Lifetime p (lt_copier (heap s h)) (lt_disposer (heap s h))
                       (lt_owner (heap s h))) s))"

text \<open>The host promise \<open>resolve\<close> function: the first settlement wins.\<close>

definition host_resolve :: "nat \<Rightarrow> promise_value \<Rightarrow> unit action" where
  "host_resolve pid v = (\<lambda>s.
     (Inr (), if promises s pid = Pending
              then s\<lparr>promises := (promises s)(pid := Fulfilled v)\<rparr> else s))"

text \<open>
  \<open>fn.apply(thisHandle, argHandles)\<close>. The field \<open>applied\<close> records each application
  by the bridge. The two closures of \<open>resolvePromise\<close> are
  \<open>value => { resolve({ value: value && value.dup() }) }\<close> and
  \<open>error => { resolve({ error: error && error.dup() }) }\<close>.
\<close>

fun run_impl :: "env \<Rightarrow> impl_ref \<Rightarrow> ref \<Rightarrow> ref list \<Rightarrow> impl_result action" where
  "run_impl E (HostFunction k) thisHandle argHandles = host_impl E k thisHandle argHandles"
| "run_impl E (ResolveWithValue pid) thisHandle argHandles =
     andThen (case argHandles of
                [] \<Rightarrow> ret None
              | v # rest \<Rightarrow> andThen (dup E v) (\<lambda>d. ret (Some d))) (\<lambda>d.
     andThen (host_resolve pid (PResult \<lparr>res_value = d, res_error = None\<rparr>)) (\<lambda>u.
     ret RetVoid))"
| "run_impl E (ResolveWithError pid) thisHandle argHandles =
     andThen (case argHandles of
                [] \<Rightarrow> ret None
              | v # rest \<Rightarrow> andThen (dup E v) (\<lambda>d. ret (Some d))) (\<lambda>d.
     andThen (host_resolve pid (PResult \<lparr>res_value = None, res_error = d\<rparr>)) (\<lambda>u.
     ret RetVoid))"

definition apply_impl :: "env \<Rightarrow> impl_ref \<Rightarrow> ref \<Rightarrow> ref list \<Rightarrow> impl_result action" where
  "apply_impl E fn thisHandle argHandles =
     (\<lambda>s. run_impl E fn thisHandle argHandles (s\<lparr>applied := applied s @ [fn]\<rparr>))"

text \<open>The decimal digits of a number, as the template literal \<open>${fn_id}\<close> prints it.\<close>

fun show_nat :: "nat \<Rightarrow> string" where
  "show_nat n =
     (if n < 10 then [''0123456789'' ! n]
      else show_nat (n div 10) @ [''0123456789'' ! (n mod 10)])"

text \<open>The loop \<open>for (let i = 0; i < argc; i++)\<close>, by the number of arguments left.\<close>

fun wrap_args ::
  "env \<Rightarrow> quickjs_context \<Rightarrow> nat \<Rightarrow> pointer \<Rightarrow> nat \<Rightarrow> nat \<Rightarrow> ref list action" where
  "wrap_args E C scope argv i 0 = ret []"
| "wrap_args E C scope argv i (Suc n) =
     andThen (ffi_ptr E (QTS_ArgvGetJSValueConstPointer argv i)) (\<lambda>ptr.
     andThen (new_WeakLifetime ptr (Some (CopyJSValue C)) (Some (FreeJSValue C))
                (Some (self C))) (\<lambda>w.
     andThen (manage scope w) (\<lambda>h.
     andThen (wrap_args E C scope argv (Suc i) n) (\<lambda>hs.
     ret (h # hs)))))"

text \<open>
  The first statements of the scoped block of the bridge: \<open>this\<close> and each argument
  are wrapped as WeakLifetimes managed by the call's scope.
\<close>

definition wrap_call ::
  "env \<Rightarrow> quickjs_context \<Rightarrow> nat \<Rightarrow> pointer \<Rightarrow> nat \<Rightarrow> pointer \<Rightarrow> (ref \<times> ref list) action" where
  "wrap_call E C scope this_ptr argc argv =
     andThen (new_WeakLifetime this_ptr (Some (CopyJSValue C)) (Some (FreeJSValue C))
                (Some (self C))) (\<lambda>w.
     andThen (manage scope w) (\<lambda>thisHandle.
     andThen (wrap_args E C scope argv 0 argc) (\<lambda>argHandles.
     ret (thisHandle, argHandles))))"

text \<open>The \<open>.then\<close> callback of the bridge, on the implementation's result.\<close>

definition forward_result ::
  "env \<Rightarrow> quickjs_context \<Rightarrow> nat \<Rightarrow> impl_result \<Rightarrow> pointer action" where
  "forward_result E C scope result =
     (case result of
        RetVoid \<Rightarrow> ret 0
      | RetHandle h \<Rightarrow>
          andThen (manage scope h) (\<lambda>handle.
          andThen (val (ctx C)) (\<lambda>cp.
          andThen (val handle) (\<lambda>hp.
          ffi_ptr E (QTS_DupValuePointer cp hp))))
      | RetResult r \<Rightarrow>
          (case res_error r of
             Some e \<Rightarrow> raise (ThrownHandle e)
           | None \<Rightarrow>
               (case res_value r of
                  None \<Rightarrow> raise type_error
                | Some v \<Rightarrow>
                    andThen (manage scope v) (\<lambda>handle.
                    andThen (val (ctx C)) (\<lambda>cp.
                    andThen (val handle) (\<lambda>hp.
                    ffi_ptr E (QTS_DupValuePointer cp hp)))))))"

text \<open>The \<open>.catch\<close> callback of the bridge, on what was raised.\<close>

definition inject_error :: "env \<Rightarrow> quickjs_context \<Rightarrow> host_exn \<Rightarrow> pointer action" where
  "inject_error E C error =
     andThen (errorToHandle E C error) (\<lambda>eh.
     consume eh (\<lambda>errorHandle.
       andThen (val (ctx C)) (\<lambda>cp.
       andThen (val errorHandle) (\<lambda>ep.
       ffi_ptr E (QTS_Throw cp ep)))))"

text \<open>
  Modelled from the spec: \<open>newPromiseLike\<close> and \<open>unwrapPromiseLike\<close> of
  \<open>./asyncify-helpers\<close> and \<open>Scope.withScopeMaybeAsync\<close> are not among the sources.
  Section 4.4 gives the immediate case, the one a synchronous implementation takes:
  \<open>withScopeMaybeAsync\<close> behaves like \<open>withScope\<close>, \<open>then\<close> runs on the returned value
  and \<open>catch\<close> on what was raised. The pending case is outside this model.
\<close>

definition withScopeMaybeAsync :: "(nat \<Rightarrow> 'a action) \<Rightarrow> 'a action" where
  "withScopeMaybeAsync block = withScope block"

definition cToHostCallbackFunction ::
  "env \<Rightarrow> quickjs_context \<Rightarrow> pointer \<Rightarrow> pointer \<Rightarrow> nat \<Rightarrow> pointer \<Rightarrow> nat \<Rightarrow> pointer action" where
  "cToHostCallbackFunction E C ctxp this_ptr argc argv fn_id =
     andThen (val (ctx C)) (\<lambda>cp.
     if ctxp \<noteq> cp
     then raise (new_Error ''QuickJSVm instance received C -> JS call with mismatched ctx'')
     else (\<lambda>s.
       case fnMap s fn_id of
         None \<Rightarrow> raise (new_Error (''QuickJSVm had no callback with id '' @ show_nat fn_id)) s
       | Some fn \<Rightarrow>
           withScopeMaybeAsync (\<lambda>scope.
             andThen (wrap_call E C scope this_ptr argc argv) (\<lambda>(thisHandle, argHandles).
             recover
               (andThen (apply_impl E fn thisHandle argHandles) (\<lambda>result.
                forward_result E C scope result))
               (\<lambda>error. inject_error E C error))) s))"

section \<open>resolvePromise\<close>

text \<open>
  The host's \<open>Promise.resolve(x)\<close> makes a fulfilled promise; \<open>new Promise(executor)\<close>
  runs the executor at once and rejects the promise with what the executor raises.
\<close>

definition Promise_resolve :: "promise_value \<Rightarrow> nat action" where
  "Promise_resolve v = (\<lambda>s. (Inr (next_promise s),
     s\<lparr>promises := (promises s)(next_promise s := Fulfilled v),
       next_promise := Suc (next_promise s)\<rparr>))"

definition new_Promise :: "(nat \<Rightarrow> unit action) \<Rightarrow> nat action" where
  "new_Promise executor = (\<lambda>s.
     let pid = next_promise s in
     case executor pid (s\<lparr>promises := (promises s)(pid := Pending), next_promise := Suc pid\<rparr>) of
       (Inr u, s1) \<Rightarrow> (Inr pid, s1)
     | (Inl e, s1) \<Rightarrow>
         (Inr pid, if promises s1 pid = Pending
                   then s1\<lparr>promises := (promises s1)(pid := Rejected e)\<rparr> else s1))"

definition resolvePromise :: "env \<Rightarrow> quickjs_context \<Rightarrow> ref \<Rightarrow> nat action" where
  "resolvePromise E C promiseLikeHandle =
     andThen (assertOwned C promiseLikeHandle) (\<lambda>u.
     andThen (withScope (\<lambda>scope.
                andThen (global_getter E C) (\<lambda>g.
                andThen (getProp E C g (KeyString ''Promise'')) (\<lambda>p0.
                andThen (manage scope p0) (\<lambda>vmPromise.
                andThen (getProp E C vmPromise (KeyString ''resolve'')) (\<lambda>p1.
                andThen (manage scope p1) (\<lambda>vmPromiseResolve.
                callFunction E C vmPromiseResolve vmPromise [promiseLikeHandle]))))))) (\<lambda>vmResolveResult.
     if res_error vmResolveResult \<noteq> None
     then Promise_resolve (PResult vmResolveResult)
     else new_Promise (\<lambda>pid.
            withScope (\<lambda>scope.
              andThen (newFunction E C ''resolve'' (ResolveWithValue pid)) (\<lambda>f1.
              andThen (manage scope f1) (\<lambda>resolveHandle.
              andThen (newFunction E C ''reject'' (ResolveWithError pid)) (\<lambda>f2.
              andThen (manage scope f2) (\<lambda>rejectHandle.
              andThen (case res_value vmResolveResult of
                         None \<Rightarrow> raise type_error
                       | Some v \<Rightarrow> manage scope v) (\<lambda>promiseHandle.
              andThen (getProp E C promiseHandle (KeyString ''then'')) (\<lambda>p2.
              andThen (manage scope p2) (\<lambda>promiseThenHandle.
              andThen (callFunction E C promiseThenHandle promiseHandle
                         [resolveHandle, rejectHandle]) (\<lambda>r.
              andThen (unwrapResult E C r) (\<lambda>res.
              case res of Some h \<Rightarrow> dispose h | None \<Rightarrow> raise type_error)))))))))))))"

section \<open>QuickJSDeferredPromise\<close>

record deferred =
  d_owner :: quickjs_context
  d_handle :: ref
  d_resolveHandle :: ref
  d_rejectHandle :: ref
  d_settled :: nat

definition onSettled :: "deferred \<Rightarrow> unit action" where
  "onSettled d = host_resolve (d_settled d) PVoid"

definition disposeResolvers :: "deferred \<Rightarrow> unit action" where
  "disposeResolvers d =
     andThen (\<lambda>s. if alive (d_resolveHandle d) s then dispose (d_resolveHandle d) s
                   else (Inr (), s)) (\<lambda>u.
     (\<lambda>s. if alive (d_rejectHandle d) s then dispose (d_rejectHandle d) s else (Inr (), s)))"

text \<open>
  \<open>resolve\<close> and \<open>reject\<close> have the same body after their guard, on the resolve and
  on the reject callback: \<open>settle_with\<close> is that body.
\<close>

definition settle_with :: "env \<Rightarrow> deferred \<Rightarrow> ref \<Rightarrow> ref option \<Rightarrow> unit action" where
  "settle_with E d callback v =
     andThen (undefined_getter E) (\<lambda>thisVal.
     andThen (case v of Some h \<Rightarrow> ret h | None \<Rightarrow> undefined_getter E) (\<lambda>arg.
     andThen (callFunction E (d_owner d) callback thisVal [arg]) (\<lambda>r.
     andThen (unwrapResult E (d_owner d) r) (\<lambda>res.
     andThen (case res of Some h \<Rightarrow> dispose h | None \<Rightarrow> raise type_error) (\<lambda>u.
     andThen (disposeResolvers d) (\<lambda>u2.
     onSettled d))))))"

definition resolve :: "env \<Rightarrow> deferred \<Rightarrow> ref option \<Rightarrow> unit action" where
  "resolve E d v = (\<lambda>s.
     if \<not> alive (d_resolveHandle d) s then (Inr (), s)
     else settle_with E d (d_resolveHandle d) v s)"

definition reject :: "env \<Rightarrow> deferred \<Rightarrow> ref option \<Rightarrow> unit action" where
  "reject E d v = (\<lambda>s.
     if \<not> alive (d_rejectHandle d) s then (Inr (), s)
     else settle_with E d (d_rejectHandle d) v s)"

definition deferred_alive :: "deferred \<Rightarrow> world \<Rightarrow> bool" where
  "deferred_alive d s =
     (alive (d_handle d) s \<or> alive (d_resolveHandle d) s \<or> alive (d_rejectHandle d) s)"

definition deferred_dispose :: "deferred \<Rightarrow> unit action" where
  "deferred_dispose d =
     andThen (\<lambda>s. if alive (d_handle d) s then dispose (d_handle d) s else (Inr (), s)) (\<lambda>u.
     disposeResolvers d)"

section \<open>The operations that take a handle\<close>

datatype operation =
    Op_typeof ref
  | Op_getNumber ref
  | Op_getString ref
  | Op_getProp ref property_key
  | Op_setProp ref property_key ref
  | Op_callFunction ref ref "ref list"
  | Op_dump ref
  | Op_newObject ref
  | Op_resolvePromise ref

text \<open>The handle an operation is invoked on: its first handle argument.\<close>

fun target :: "operation \<Rightarrow> ref" where
  "target (Op_typeof h) = h"
| "target (Op_getNumber h) = h"
| "target (Op_getString h) = h"
| "target (Op_getProp h k) = h"
| "target (Op_setProp h k v) = h"
| "target (Op_callFunction f t args) = f"
| "target (Op_dump h) = h"
| "target (Op_newObject pr) = pr"
| "target (Op_resolvePromise h) = h"

text \<open>Every handle among the arguments.\<close>

fun key_handles :: "property_key \<Rightarrow> ref list" where
  "key_handles (KeyHandle h) = [h]"
| "key_handles k = []"

fun handle_args :: "operation \<Rightarrow> ref list" where
  "handle_args (Op_getProp h k) = h # key_handles k"
| "handle_args (Op_setProp h k v) = h # key_handles k @ [v]"
| "handle_args (Op_callFunction f t args) = f # t # args"
| "handle_args op = [target op]"

definition discard :: "'a action \<Rightarrow> unit action" where
  "discard m = andThen m (\<lambda>x. ret ())"

fun perform :: "env \<Rightarrow> quickjs_context \<Rightarrow> operation \<Rightarrow> unit action" where
  "perform E C (Op_typeof h) = discard (typeof E C h)"
| "perform E C (Op_getNumber h) = discard (getNumber E C h)"
| "perform E C (Op_getString h) = discard (getString E C h)"
| "perform E C (Op_getProp h k) = discard (getProp E C h k)"
| "perform E C (Op_setProp h k v) = setProp E C h k v"
| "perform E C (Op_callFunction f t args) = discard (callFunction E C f t args)"
| "perform E C (Op_dump h) = discard (dump E C h)"
| "perform E C (Op_newObject pr) = discard (newObject E C (Some pr))"
| "perform E C (Op_resolvePromise h) = discard (resolvePromise E C h)"

text \<open>A handle made by another context: its owner is set and is not this context.\<close>

definition foreign_owned :: "quickjs_context \<Rightarrow> ref \<Rightarrow> world \<Rightarrow> bool" where
  "foreign_owned C h s =
     (lt_owner (heap s h) \<noteq> None \<and> lt_owner (heap s h) \<noteq> Some (self C))"

definition ownership_error :: host_exn where
  "ownership_error = new_Error ''Given handle created by a different VM''"

section \<open>A concrete context, runtime and world\<close>

text \<open>
  A context with identity 1 over the foreign context 50; a runtime that answers the
  \<open>k\<close>-th call with the pointer \<open>100 + k\<close> and reports no exception; a second one that
  reports an exception after every call. Both describe every value as the boolean
  \<open>true\<close> or, on demand, as an error object.
\<close>

definition ctx0 :: quickjs_context where
  "ctx0 = \<lparr>self = 1, ctx = 0, rt = 1, memory_scope = 0\<rparr>"

definition dq :: char where
  "dq = CHR 0x22"

definition error_json :: string where
  "error_json = ''{'' @ [dq] @ ''name'' @ [dq] @ '':'' @ [dq] @ ''RangeError'' @ [dq] @ '',''
     @ [dq] @ ''message'' @ [dq] @ '':'' @ [dq] @ ''x'' @ [dq] @ ''}''"

definition json0 :: "string \<Rightarrow> host_value option" where
  "json0 str =
     (if str = ''true'' then Some (HBool True)
      else if str = ''null'' then Some HNull
      else if str = error_json
      then Some (HObject [(''name'', HString ''RangeError''), (''message'', HString ''x'')])
      else None)"

definition impl0 ::
  "nat \<Rightarrow> ref \<Rightarrow> ref list \<Rightarrow> world \<Rightarrow> (host_exn + impl_result) \<times> world" where
  "impl0 k thisHandle argHandles s =
     (if k = 0 then (Inr RetVoid, s)
      else if k = 1 then (Inr (RetHandle thisHandle), s)
      else if k = 2 then (Inr (RetResult \<lparr>res_value = None, res_error = Some thisHandle\<rparr>), s)
      else (Inl (JSError \<lparr>err_name = Some ''RangeError'', err_message = Some ''bad'',
                          err_stack = Some ''at f''\<rparr>), s))"

definition env0 :: env where
  "env0 = \<lparr>ptr_result = (\<lambda>k c. case c of QTS_ResolveException cp p \<Rightarrow> 0 | _ \<Rightarrow> 100 + k),
            str_result = (\<lambda>k c. case c of QTS_Typeof cp p \<Rightarrow> ''boolean'' | _ \<Rightarrow> ''true''),
            num_result = (\<lambda>k c. 0),
            json_parse = json0,
            heap_string_of = (\<lambda>v. []),
            evalOptionsToFlags = (\<lambda>opts. 0),
            host_impl = impl0\<rparr>"

definition env1 :: env where
  "env1 = \<lparr>ptr_result = (\<lambda>k c. 100 + k),
            str_result = (\<lambda>k c. case c of QTS_Typeof cp p \<Rightarrow> ''object'' | _ \<Rightarrow> error_json),
            num_result = (\<lambda>k c. 0),
            json_parse = json0,
            heap_string_of = (\<lambda>v. []),
            evalOptionsToFlags = (\<lambda>opts. 0),
            host_impl = impl0\<rparr>"

definition blank :: lifetime where
  "blank = \<lparr>lt_value = 0, lt_owner = None, lt_alive = False, lt_kind = Owned,
            lt_copier = None, lt_disposer = None\<rparr>"

definition own :: "pointer \<Rightarrow> lifetime" where
  "own p = \<lparr>lt_value = p, lt_owner = Some 1, lt_alive = True, lt_kind = Owned,
            lt_copier = Some (CopyJSValue ctx0), lt_disposer = Some (FreeJSValue ctx0)\<rparr>"

text \<open>
  The world: the context Lifetime at 0, the runtime Lifetime at 1, handles of the
  context at 2, 4, 5 and 6, a handle of another context (identity 2) at 3.
\<close>

definition heap0 :: "ref \<Rightarrow> lifetime" where
  "heap0 = (\<lambda>r. blank)
     (0 := blank\<lparr>lt_value := 50, lt_alive := True\<rparr>,
      1 := blank\<lparr>lt_value := 51, lt_alive := True\<rparr>,
      2 := own 60,
      3 := (own 61)\<lparr>lt_owner := Some 2\<rparr>,
      4 := own 62,
      5 := own 63,
      6 := own 64)"

definition world0 :: world where
  "world0 = \<lparr>heap = heap0, next_ref = 7,
     scopes = (\<lambda>k. \<lparr>managed = [], sc_alive = False\<rparr>)(0 := \<lparr>managed = [0], sc_alive = True\<rparr>),
     next_scope = 1, trace = [],
     fnMap = (\<lambda>k. None)(1 := Some (HostFunction 0), 2 := Some (HostFunction 1),
                          3 := Some (HostFunction 2), 4 := Some (HostFunction 3)),
     fnNextId = 4, c_undefined = None, c_global = None,
     promises = (\<lambda>k. Pending), next_promise = 1, applied = []\<rparr>"

text \<open>The same world after handle 2 has been disposed.\<close>

definition world1 :: world where
  "world1 = world0\<lparr>heap := heap0(2 := (own 60)\<lparr>lt_alive := False\<rparr>),
                    trace := [QTS_FreeValuePointer 50 60]\<rparr>"

text \<open>Implementations that throw \<open>undefined\<close>.\<close>

definition impl1 ::
  "nat \<Rightarrow> ref \<Rightarrow> ref list \<Rightarrow> world \<Rightarrow> (host_exn + impl_result) \<times> world" where
  "impl1 k thisHandle argHandles s = (Inl (ThrownValue HUndefined), s)"

definition env2 :: env where
  "env2 = env0\<lparr>host_impl := impl1\<rparr>"

definition deferred0 :: deferred where
  "deferred0 = \<lparr>d_owner = ctx0, d_handle = 4, d_resolveHandle = 5, d_rejectHandle = 6,
                d_settled = 0\<rparr>"

section \<open>Notions the properties are stated with\<close>

text \<open>An outcome with exactly one of its two branches.\<close>

definition one_branch :: "VmCallResult \<Rightarrow> bool" where
  "one_branch r = ((res_value r = None) \<noteq> (res_error r = None))"

text \<open>A host value that is a string, a number or \<open>undefined\<close>.\<close>

definition restricted :: "host_value \<Rightarrow> bool" where
  "restricted v =
     (case v of HString str \<Rightarrow> True | HNumber n \<Rightarrow> True | HUndefined \<Rightarrow> True | _ \<Rightarrow> False)"

text \<open>
  Nothing allocated below \<open>n\<close> has changed from \<open>s\<close> to \<open>s'\<close>, and no reference has
  been given back.
\<close>

definition same_below :: "nat \<Rightarrow> world \<Rightarrow> world \<Rightarrow> bool" where
  "same_below n s s' = (next_ref s \<le> next_ref s' \<and> (\<forall>r<n. heap s' r = heap s r))"



text \<open>The invocations of foreign functions among a sequence of calls.\<close>

definition invocations :: "call list \<Rightarrow> call list" where
  "invocations cs =
     filter (\<lambda>c. case c of QTS_Call cp fp tp argc ap \<Rightarrow> True | _ \<Rightarrow> False) cs"



text \<open>
  The calls that copy one string property onto the foreign object \<open>ep\<close>, the first of
  them being call number \<open>n\<close>: the text and the key are each encoded and made a foreign
  string, the property is set, and the two strings are released.
\<close>

definition set_prop_calls ::
  "env \<Rightarrow> nat \<Rightarrow> pointer \<Rightarrow> pointer \<Rightarrow> string \<Rightarrow> string \<Rightarrow> call list" where
  "set_prop_calls E n cp ep key text =
     (let tb = ptr_result E n (Module_newHeapCharPointer text);
          tp = ptr_result E (n + 1) (QTS_NewString cp tb);
          kb = ptr_result E (n + 3) (Module_newHeapCharPointer key);
          kp = ptr_result E (n + 4) (QTS_NewString cp kb)
      in [Module_newHeapCharPointer text, QTS_NewString cp tb, Module_free tb,
          Module_newHeapCharPointer key, QTS_NewString cp kb, Module_free kb,
          QTS_SetProp cp ep kp tp, QTS_FreeValuePointer cp kp, QTS_FreeValuePointer cp tp])"







section \<open>Basic facts about actions\<close>

lemmas action_defs = ret_def raise_def andThen_def ensuring_def recover_def consume_def
  ffi_ptr_def ffi_str_def ffi_num_def ffi_void_def

lemmas lifetime_defs = alloc_def new_Lifetime_def new_StaticLifetime_def new_WeakLifetime_def
  alive_def val_def freeJSValue_def copyJSValue_def mark_dead_def dispose_def heapValueHandle_def

lemmas context_defs = assertOwned_def newHeapCharPointer_def toPointerArray_def
  undefined_getter_def newNumber_def newString_def newObject_def typeof_def getNumber_def
  getString_def getProp_def setProp_def resolveResult_def callFunction_def evalCode_def
  dump_def unwrapResult_def new_Error_def use_after_dispose_def

lemmas fixture_defs = ctx0_def env0_def env1_def env2_def world0_def world1_def heap0_def
  own_def blank_def impl1_def
  deferred0_def json0_def impl0_def error_json_def dq_def


lemma andThen_Inr:
  "andThen m f s = (Inr y, s') \<Longrightarrow> \<exists>x s1. m s = (Inr x, s1) \<and> f x s1 = (Inr y, s')"
  by (auto simp: andThen_def split: prod.splits sum.splits)

lemma andThen_raises: "m s = (Inl e, s1) \<Longrightarrow> andThen m f s = (Inl e, s1)"
  by (simp add: andThen_def)

lemma andThen_returns: "m s = (Inr x, s1) \<Longrightarrow> andThen m f s = f x s1"
  by (simp add: andThen_def)

lemma vals_alive:
  "\<forall>a\<in>set hs. alive a s \<Longrightarrow> vals hs s = (Inr (map (\<lambda>a. lt_value (heap s a)) hs), s)"
  by (induction hs) (simp_all add: action_defs val_def)

section \<open>Ownership check\<close>

lemma assertOwned_foreign:
  "foreign_owned C h s \<Longrightarrow> assertOwned C h s = (Inl ownership_error, s)"
  by (simp add: assertOwned_def foreign_owned_def ownership_error_def)

text \<open>
  C1, as stated: an operation fails with the ownership error, and calls no primitive,
  as soon as any of its handle arguments is owned by another context. This fails:
  \<open>setProp\<close> on a handle of this context, with a value that belongs to context 2, checks
  only the handle it is invoked on, returns normally and has called \<open>QTS_SetProp\<close> with
  the raw pointer 61 of the other context's value.
\<close>

theorem setProp_foreign_value_counterexample:
  "foreign_owned ctx0 3 world0 \<and>
   3 \<in> set (handle_args (Op_setProp 2 (KeyString ''k'') 3)) \<and>
   fst (perform env0 ctx0 (Op_setProp 2 (KeyString ''k'') 3) world0) = Inr () \<and>
   trace (snd (perform env0 ctx0 (Op_setProp 2 (KeyString ''k'') 3) world0)) =
     [Module_newHeapCharPointer ''k'', QTS_NewString 50 100, Module_free 100,
      QTS_SetProp 50 60 101 61, QTS_FreeValuePointer 50 101]"
  by (simp add: foreign_owned_def action_defs lifetime_defs context_defs fixture_defs)

text \<open>
  C1, amended: each of \<open>typeof\<close>, \<open>getNumber\<close>, \<open>getString\<close>, \<open>getProp\<close>, \<open>setProp\<close>,
  \<open>callFunction\<close>, \<open>dump\<close>, \<open>newObject\<close> with a prototype and \<open>resolvePromise\<close> fails
  with the ownership error, leaving the world as it was (so no primitive is called),
  when the handle it is invoked on (its first handle argument) has an owner that is
  set and is not the receiving context.
\<close>

theorem target_ownership_checked:
  "foreign_owned C (target op) s \<Longrightarrow> perform E C op s = (Inl ownership_error, s)"
  by (cases op)
     (simp_all add: discard_def typeof_def getNumber_def getString_def getProp_def setProp_def
        callFunction_def dump_def newObject_def resolvePromise_def
        andThen_raises assertOwned_foreign)

theorem target_ownership_checked_witness:
  "foreign_owned ctx0 (target (Op_callFunction 3 2 [4])) world0 \<and>
   perform env0 ctx0 (Op_callFunction 3 2 [4]) world0 = (Inl ownership_error, world0)"
proof -
  have own: "foreign_owned ctx0 (target (Op_callFunction 3 2 [4])) world0"
    by (simp add: foreign_owned_def fixture_defs)
  from own target_ownership_checked [OF own, of env0] show ?thesis by simp
qed

section \<open>Two-branch outcomes\<close>

lemma resolveResult_one_branch:
  "resolveResult E C p s = (Inr r, s') \<Longrightarrow> one_branch r"
  by (auto simp: resolveResult_def one_branch_def action_defs lifetime_defs
           split: if_splits prod.splits sum.splits)

lemma resolveResult_returns:
  "alive (ctx C) s \<Longrightarrow> \<exists>r s'. resolveResult E C p s = (Inr r, s')"
  by (simp add: resolveResult_def action_defs lifetime_defs)

lemma callFunction_one_branch:
  "callFunction E C f t args s = (Inr r, s') \<Longrightarrow> one_branch r"
  unfolding callFunction_def
  by (auto dest!: andThen_Inr dest: resolveResult_one_branch)

lemma evalCode_one_branch:
  "evalCode E C code file opts s = (Inr r, s') \<Longrightarrow> one_branch r"
  unfolding evalCode_def Let_def
  by (auto dest!: andThen_Inr dest: resolveResult_one_branch)

lemma evalCode_returns:
  assumes "alive (ctx C) s" "ctx C < next_ref s"
  shows "\<exists>r s'. evalCode E C code file opts s = (Inr r, s')"
proof -
  have "alive (ctx C) s1" if "heap s1 (ctx C) = heap s (ctx C)" for s1
    using assms that by (simp add: alive_def)
  then show ?thesis
    using assms
    by (simp add: evalCode_def Let_def newHeapCharPointer_def action_defs lifetime_defs
          resolveResult_returns)
qed

lemma callFunction_returns:
  assumes "alive (ctx C) s" "ctx C < next_ref s" "\<not> foreign_owned C f s" "alive f s" "alive t s"
    "\<forall>a\<in>set args. alive a s"
  shows "\<exists>r s'. callFunction E C f t args s = (Inr r, s')"
proof -
  have "alive (ctx C) s1" if "heap s1 (ctx C) = heap s (ctx C)" for s1
    using assms that by (simp add: alive_def)
  then show ?thesis
    using assms
    by (auto simp add: callFunction_def toPointerArray_def assertOwned_def foreign_owned_def
          vals_alive andThen_returns [where m = "vals args"]
          action_defs lifetime_defs resolveResult_returns)
qed

text \<open>
  C2: whatever \<open>callFunction\<close> or \<open>evalCode\<close> returns has exactly one of the branches
  \<open>value\<close> and \<open>error\<close>. Both do return: \<open>evalCode\<close> whenever the context is alive,
  \<open>callFunction\<close> when moreover the function handle passes the ownership check and the
  handles passed are alive.
\<close>

theorem call_outcome_one_branch:
  "(\<forall>r s'. callFunction E C f t args s = (Inr r, s') \<longrightarrow> one_branch r) \<and>
   (\<forall>r s'. evalCode E C code file opts s = (Inr r, s') \<longrightarrow> one_branch r) \<and>
   (alive (ctx C) s \<and> ctx C < next_ref s \<longrightarrow>
      (\<exists>r s'. evalCode E C code file opts s = (Inr r, s') \<and> one_branch r)) \<and>
   (alive (ctx C) s \<and> ctx C < next_ref s \<and> \<not> foreign_owned C f s \<and> alive f s \<and> alive t s \<and>
    (\<forall>a\<in>set args. alive a s) \<longrightarrow>
      (\<exists>r s'. callFunction E C f t args s = (Inr r, s') \<and> one_branch r))"
proof (intro conjI allI impI)
  fix r s' assume "callFunction E C f t args s = (Inr r, s')"
  then show "one_branch r" by (rule callFunction_one_branch)
next
  fix r s' assume "evalCode E C code file opts s = (Inr r, s')"
  then show "one_branch r" by (rule evalCode_one_branch)
next
  assume "alive (ctx C) s \<and> ctx C < next_ref s"
  then obtain r s' where "evalCode E C code file opts s = (Inr r, s')"
    using evalCode_returns by blast
  then show "\<exists>r s'. evalCode E C code file opts s = (Inr r, s') \<and> one_branch r"
    using evalCode_one_branch by blast
next
  assume "alive (ctx C) s \<and> ctx C < next_ref s \<and> \<not> foreign_owned C f s \<and> alive f s \<and>
    alive t s \<and> (\<forall>a\<in>set args. alive a s)"
  then obtain r s' where "callFunction E C f t args s = (Inr r, s')"
    using callFunction_returns by blast
  then show "\<exists>r s'. callFunction E C f t args s = (Inr r, s') \<and> one_branch r"
    using callFunction_one_branch by blast
qed

theorem call_outcome_one_branch_witness:
  "(\<exists>r s'. evalCode env0 ctx0 ''1+2'' None None world0 = (Inr r, s') \<and> one_branch r) \<and>
   (\<exists>r s'. callFunction env0 ctx0 5 2 [4] world0 = (Inr r, s') \<and> one_branch r)"
proof -
  have pre: "alive (ctx ctx0) world0 \<and> ctx ctx0 < next_ref world0 \<and>
      \<not> foreign_owned ctx0 5 world0 \<and> alive 5 world0 \<and> alive 2 world0 \<and>
      (\<forall>a\<in>set [4]. alive a world0)"
    by (simp add: alive_def foreign_owned_def fixture_defs)
  from pre call_outcome_one_branch [of env0 ctx0 5 2 "[4]" world0 "''1+2''" None None]
  show ?thesis by blast
qed

section \<open>Dispatch of an inbound call\<close>

text \<open>
  C7: an inbound call whose function id has no registered implementation fails at once
  with the error \<open>QuickJSVm had no callback with id N\<close>, and one whose context pointer
  is not this context's with the mismatched-context error. In both cases the world is
  left as it was: nothing has been wrapped, applied or called.
\<close>

theorem dispatch_fails_fast:
  "alive (ctx C) s \<Longrightarrow>
   (lt_value (heap s (ctx C)) \<noteq> ctxp \<longrightarrow>
      cToHostCallbackFunction E C ctxp this_ptr argc argv fn_id s =
        (Inl (new_Error ''QuickJSVm instance received C -> JS call with mismatched ctx''), s)) \<and>
   (lt_value (heap s (ctx C)) = ctxp \<and> fnMap s fn_id = None \<longrightarrow>
      cToHostCallbackFunction E C ctxp this_ptr argc argv fn_id s =
        (Inl (new_Error (''QuickJSVm had no callback with id '' @ show_nat fn_id)), s))"
  by (simp add: cToHostCallbackFunction_def val_def andThen_def raise_def)

theorem dispatch_fails_fast_witness:
  "alive (ctx ctx0) world0 \<and> lt_value (heap world0 (ctx ctx0)) \<noteq> 51 \<and>
   lt_value (heap world0 (ctx ctx0)) = 50 \<and> fnMap world0 5 = None \<and>
   cToHostCallbackFunction env0 ctx0 51 70 2 80 1 world0 =
     (Inl (new_Error ''QuickJSVm instance received C -> JS call with mismatched ctx''), world0) \<and>
   cToHostCallbackFunction env0 ctx0 50 70 2 80 5 world0 =
     (Inl (new_Error ''QuickJSVm had no callback with id 5''), world0)"
proof -
  have pre: "alive (ctx ctx0) world0" by (simp add: alive_def fixture_defs)
  have facts: "lt_value (heap world0 (ctx ctx0)) \<noteq> 51" "lt_value (heap world0 (ctx ctx0)) = 50"
    "fnMap world0 5 = None"
    by (simp_all add: fixture_defs)
  have five: "show_nat 5 = ''5''" by simp
  from dispatch_fails_fast [OF pre, of 51 env0 70 2 80 1]
       dispatch_fails_fast [OF pre, of 50 env0 70 2 80 5] pre facts five
  show ?thesis by simp
qed

section \<open>dump\<close>

lemma dump_exact:
  assumes "\<not> foreign_owned C h s" "alive (ctx C) s" "alive h s"
  shows "dump E C h s =
    (let cp = lt_value (heap s (ctx C)); hp = lt_value (heap s h); n = length (trace s);
         type = str_result E n (QTS_Typeof cp hp)
     in if type = ''string''
        then (Inr (HString (str_result E (Suc n) (QTS_GetString cp hp))),
              s\<lparr>trace := trace s @ [QTS_Typeof cp hp, QTS_GetString cp hp]\<rparr>)
        else if type = ''number''
        then (Inr (HNumber (num_result E (Suc n) (QTS_GetFloat64 cp hp))),
              s\<lparr>trace := trace s @ [QTS_Typeof cp hp, QTS_GetFloat64 cp hp]\<rparr>)
        else if type = ''undefined''
        then (Inr HUndefined, s\<lparr>trace := trace s @ [QTS_Typeof cp hp]\<rparr>)
        else (Inr (case json_parse E (str_result E (Suc n) (QTS_Dump cp hp)) of
                     Some v \<Rightarrow> v
                   | None \<Rightarrow> HString (str_result E (Suc n) (QTS_Dump cp hp))),
              s\<lparr>trace := trace s @ [QTS_Typeof cp hp, QTS_Dump cp hp]\<rparr>))"
  using assms
  by (auto simp add: dump_def typeof_def getString_def getNumber_def assertOwned_def
       foreign_owned_def val_def alive_def action_defs Let_def split: option.splits)

lemma dump_only_trace:
  "dump E C h s = (x, s') \<Longrightarrow> s' = s\<lparr>trace := trace s'\<rparr>"
  by (auto simp: dump_def typeof_def getString_def getNumber_def assertOwned_def
       val_def action_defs split: if_splits option.splits)

lemma dump_Inr_pre:
  "dump E C h s = (Inr v, s1) \<Longrightarrow> alive (ctx C) s \<and> alive h s"
  by (auto simp: dump_def typeof_def assertOwned_def val_def action_defs
       split: if_splits option.splits)

text \<open>
  C8, as stated: what \<open>dump\<close> returns is a string, a number or \<open>undefined\<close>. This fails:
  for a value the runtime describes as a boolean and dumps as \<open>true\<close>, \<open>dump\<close> returns
  the host boolean \<open>true\<close>, which \<open>JSON.parse\<close> made of that text.
\<close>

theorem dump_boolean_counterexample:
  "fst (dump env0 ctx0 2 world0) = Inr (HBool True) \<and> \<not> restricted (HBool True)"
  by (simp add: restricted_def action_defs lifetime_defs context_defs fixture_defs)

text \<open>
  C8, amended: on a live handle that passes the ownership check, in a live context,
  \<open>dump\<close> returns the string the runtime gives when \<open>typeof\<close> reports \<open>string\<close>, the
  number when it reports \<open>number\<close>, \<open>undefined\<close> when it reports \<open>undefined\<close>, and for
  every other type what \<open>JSON.parse\<close> makes of the runtime's dump text (any JSON value:
  an object, an array, a boolean, \<open>null\<close>, a number or a string), or that text itself, as
  a string, when it does not parse.
\<close>

theorem dump_value_by_type:
  assumes "\<not> foreign_owned C h s" "alive (ctx C) s" "alive h s"
  shows "\<exists>v s'. dump E C h s = (Inr v, s') \<and>
    (let cp = lt_value (heap s (ctx C)); hp = lt_value (heap s h); n = length (trace s);
         type = str_result E n (QTS_Typeof cp hp);
         text = str_result E (Suc n) (QTS_Dump cp hp)
     in (type = ''string'' \<longrightarrow> v = HString (str_result E (Suc n) (QTS_GetString cp hp))) \<and>
        (type = ''number'' \<longrightarrow> v = HNumber (num_result E (Suc n) (QTS_GetFloat64 cp hp))) \<and>
        (type = ''undefined'' \<longrightarrow> v = HUndefined) \<and>
        (type \<noteq> ''string'' \<and> type \<noteq> ''number'' \<and> type \<noteq> ''undefined'' \<longrightarrow>
           v = (case json_parse E text of Some x \<Rightarrow> x | None \<Rightarrow> HString text)))"
  by (simp add: dump_exact [OF assms] Let_def)

theorem dump_value_by_type_witness:
  "\<not> foreign_owned ctx0 2 world0 \<and> alive (ctx ctx0) world0 \<and> alive 2 world0 \<and>
   (\<exists>s'. dump env1 ctx0 2 world0 =
      (Inr (HObject [(''name'', HString ''RangeError''), (''message'', HString ''x'')]), s'))"
proof -
  have pre: "\<not> foreign_owned ctx0 2 world0" "alive (ctx ctx0) world0" "alive 2 world0"
    by (simp_all add: foreign_owned_def alive_def fixture_defs)
  have answers: "\<And>n a b. str_result env1 n (QTS_Typeof a b) = ''object''"
    "\<And>n a b. str_result env1 n (QTS_Dump a b) = error_json"
    "json_parse env1 error_json =
       Some (HObject [(''name'', HString ''RangeError''), (''message'', HString ''x'')])"
    by (simp_all add: env1_def json0_def error_json_def dq_def)
  from dump_value_by_type [OF pre, of env1] pre show ?thesis
    by (auto simp add: Let_def answers)
qed

section \<open>unwrapResult\<close>

lemma dispose_owned:
  assumes "lt_kind (heap s h) = Owned" "lt_alive (heap s h)"
    "lt_disposer (heap s h) = Some (FreeJSValue C)" "alive (ctx C) s"
  shows "dispose h s =
    (Inr (), s\<lparr>trace := trace s @
                 [QTS_FreeValuePointer (lt_value (heap s (ctx C))) (lt_value (heap s h))],
              heap := (heap s)(h := (heap s h)\<lparr>lt_alive := False\<rparr>)\<rparr>)"
  using assms by (simp add: dispose_def freeJSValue_def mark_dead_def val_def alive_def action_defs)

lemma unwrapResult_raises:
  "res_error r = Some h \<Longrightarrow> \<exists>e s'. unwrapResult E C r s = (Inl e, s')"
  by (cases "consume h (\<lambda>error. dump E C error) s")
     (auto simp: unwrapResult_def andThen_def raise_def
         split: sum.splits host_value.splits option.splits)

lemma unwrapResult_consumes:
  assumes err: "res_error r = Some h"
    and dumped: "dump E C h s = (Inr dumped, s1)"
    and owned: "lt_kind (heap s h) = Owned" "lt_disposer (heap s h) = Some (FreeJSValue C)"
  shows "\<exists>e s'. unwrapResult E C r s = (Inl e, s') \<and> \<not> alive h s' \<and>
     trace s' = trace s1 @ [QTS_FreeValuePointer (lt_value (heap s (ctx C))) (lt_value (heap s h))] \<and>
     (\<forall>props msg. dumped = HObject props \<and> map_of props ''message'' = Some (HString msg) \<longrightarrow>
        (\<exists>x. e = JSError x \<and> err_message x = Some msg \<and>
             (\<forall>n. map_of props ''name'' = Some (HString n) \<longrightarrow> err_name x = Some n))) \<and>
     ((\<nexists>props msg. dumped = HObject props \<and> map_of props ''message'' = Some (HString msg)) \<longrightarrow>
        e = ThrownValue dumped)"
proof -
  from dumped have pre: "alive (ctx C) s" "alive h s" using dump_Inr_pre by blast+
  from dumped have s1: "s1 = s\<lparr>trace := trace s1\<rparr>" by (rule dump_only_trace)
  have heap1: "heap s1 = heap s" by (subst s1) simp
  define s2 where "s2 = s1\<lparr>trace := trace s1 @
      [QTS_FreeValuePointer (lt_value (heap s (ctx C))) (lt_value (heap s h))],
      heap := (heap s1)(h := (heap s1 h)\<lparr>lt_alive := False\<rparr>)\<rparr>"
  have "dispose h s1 = (Inr (), s2)"
    unfolding s2_def using pre owned heap1
    by (subst dispose_owned [where C = C]) (simp_all add: alive_def)
  with dumped have cons: "consume h (\<lambda>error. dump E C error) s = (Inr dumped, s2)"
    by (simp add: consume_def ensuring_def)
  have dead: "\<not> alive h s2" using owned heap1 by (simp add: s2_def alive_def)
  have tr: "trace s2 = trace s1 @
      [QTS_FreeValuePointer (lt_value (heap s (ctx C))) (lt_value (heap s h))]"
    by (simp add: s2_def)
  show ?thesis
    using err cons dead tr
    by (auto simp: unwrapResult_def andThen_def raise_def
          split: host_value.splits option.splits)
qed

text \<open>
  C6: on a result without an error branch \<open>unwrapResult\<close> returns \<open>result.value\<close> and
  changes nothing. On a result with an error branch it never returns normally; when
  the error handle is a heap value handle that \<open>dump\<close> converts to \<open>dumped\<close>, it frees
  the handle (one \<open>QTS_FreeValuePointer\<close> after the dump, the handle dead afterwards)
  and raises a host \<open>Error\<close> with the dumped \<open>message\<close>, and the dumped \<open>name\<close> when that
  is a string, if \<open>dumped\<close> is an object with a string \<open>message\<close>; otherwise it raises
  \<open>dumped\<close> itself.
\<close>

theorem unwrapResult_outcome:
  "(res_error r = None \<longrightarrow> unwrapResult E C r s = (Inr (res_value r), s)) \<and>
   (res_error r = Some h \<longrightarrow> (\<exists>e s'. unwrapResult E C r s = (Inl e, s'))) \<and>
   (res_error r = Some h \<and> dump E C h s = (Inr dumped, sd) \<and> lt_kind (heap s h) = Owned \<and>
    lt_disposer (heap s h) = Some (FreeJSValue C) \<longrightarrow>
      (\<exists>e s'. unwrapResult E C r s = (Inl e, s') \<and> \<not> alive h s' \<and>
         trace s' = trace sd @
           [QTS_FreeValuePointer (lt_value (heap s (ctx C))) (lt_value (heap s h))] \<and>
         (\<forall>props msg. dumped = HObject props \<and> map_of props ''message'' = Some (HString msg) \<longrightarrow>
            (\<exists>x. e = JSError x \<and> err_message x = Some msg \<and>
                 (\<forall>n. map_of props ''name'' = Some (HString n) \<longrightarrow> err_name x = Some n))) \<and>
         ((\<nexists>props msg. dumped = HObject props \<and> map_of props ''message'' = Some (HString msg)) \<longrightarrow>
            e = ThrownValue dumped)))"
proof (intro conjI impI)
  assume "res_error r = None"
  then show "unwrapResult E C r s = (Inr (res_value r), s)"
    by (simp add: unwrapResult_def ret_def)
next
  assume "res_error r = Some h"
  then show "\<exists>e s'. unwrapResult E C r s = (Inl e, s')" by (rule unwrapResult_raises)
next
  assume a: "res_error r = Some h \<and> dump E C h s = (Inr dumped, sd) \<and>
    lt_kind (heap s h) = Owned \<and> lt_disposer (heap s h) = Some (FreeJSValue C)"
  show "\<exists>e s'. unwrapResult E C r s = (Inl e, s') \<and> \<not> alive h s' \<and>
         trace s' = trace sd @
           [QTS_FreeValuePointer (lt_value (heap s (ctx C))) (lt_value (heap s h))] \<and>
         (\<forall>props msg. dumped = HObject props \<and> map_of props ''message'' = Some (HString msg) \<longrightarrow>
            (\<exists>x. e = JSError x \<and> err_message x = Some msg \<and>
                 (\<forall>n. map_of props ''name'' = Some (HString n) \<longrightarrow> err_name x = Some n))) \<and>
         ((\<nexists>props msg. dumped = HObject props \<and> map_of props ''message'' = Some (HString msg)) \<longrightarrow>
            e = ThrownValue dumped)"
    using a by (intro unwrapResult_consumes) simp_all
qed

theorem unwrapResult_outcome_witness:
  "unwrapResult env1 ctx0 \<lparr>res_value = Some 2, res_error = None\<rparr> world0 =
     (Inr (Some 2), world0) \<and>
   (\<exists>e s'. unwrapResult env1 ctx0 \<lparr>res_value = None, res_error = Some 2\<rparr> world0 = (Inl e, s') \<and>
      \<not> alive 2 s' \<and>
      (\<exists>x. e = JSError x \<and> err_message x = Some ''x'' \<and> err_name x = Some ''RangeError''))"
proof -
  have pre: "\<not> foreign_owned ctx0 2 world0" "alive (ctx ctx0) world0" "alive 2 world0"
    by (simp_all add: foreign_owned_def alive_def fixture_defs)
  have answers: "\<And>n a b. str_result env1 n (QTS_Typeof a b) = ''object''"
    "\<And>n a b. str_result env1 n (QTS_Dump a b) = error_json"
    "json_parse env1 error_json =
       Some (HObject [(''name'', HString ''RangeError''), (''message'', HString ''x'')])"
    by (simp_all add: env1_def json0_def error_json_def dq_def)
  define s1 where "s1 = world0\<lparr>trace := trace world0 @
     [QTS_Typeof (lt_value (heap world0 (ctx ctx0))) (lt_value (heap world0 2)),
      QTS_Dump (lt_value (heap world0 (ctx ctx0))) (lt_value (heap world0 2))]\<rparr>"
  have d: "dump env1 ctx0 2 world0 =
      (Inr (HObject [(''name'', HString ''RangeError''), (''message'', HString ''x'')]), s1)"
    by (simp add: dump_exact [OF pre] Let_def answers s1_def)
  have k: "lt_kind (heap world0 2) = Owned" "lt_disposer (heap world0 2) = Some (FreeJSValue ctx0)"
    by (simp_all add: fixture_defs)
  from unwrapResult_outcome [where r = "\<lparr>res_value = Some 2, res_error = None\<rparr>"
         and E = env1 and C = ctx0 and s = world0]
  have first: "unwrapResult env1 ctx0 \<lparr>res_value = Some 2, res_error = None\<rparr> world0 =
     (Inr (Some 2), world0)" by simp
  from unwrapResult_outcome [where r = "\<lparr>res_value = None, res_error = Some 2\<rparr>"
         and E = env1 and C = ctx0 and s = world0 and h = 2 and sd = s1
         and dumped = "HObject [(''name'', HString ''RangeError''), (''message'', HString ''x'')]"]
       d k
  have second: "\<exists>e s'. unwrapResult env1 ctx0 \<lparr>res_value = None, res_error = Some 2\<rparr> world0 =
      (Inl e, s') \<and> \<not> alive 2 s' \<and>
      (\<exists>x. e = JSError x \<and> err_message x = Some ''x'' \<and> err_name x = Some ''RangeError'')"
    by simp (elim conjE exE, fastforce)
  from first second show ?thesis by blast
qed

section \<open>What settling a deferred promise touches\<close>

lemmas deferred_defs = resolve_def reject_def settle_with_def disposeResolvers_def onSettled_def
  host_resolve_def deferred_alive_def deferred_dispose_def type_error_def

lemma same_below_refl: "same_below n s s"
  by (simp add: same_below_def)

lemma same_below_trans:
  "same_below n s s1 \<Longrightarrow> same_below n s1 s2 \<Longrightarrow> same_below n s s2"
  by (simp add: same_below_def)

lemma vals_Inr: "vals hs s = (Inr ps, s') \<Longrightarrow> s' = s"
  by (induction hs arbitrary: ps)
     (auto simp: action_defs val_def split: if_splits prod.splits sum.splits)

lemma dispose_frame:
  "dispose h s = (x, s') \<Longrightarrow>
     next_ref s' = next_ref s \<and> (\<forall>r. r \<noteq> h \<longrightarrow> heap s' r = heap s r)"
  by (cases "lt_disposer (heap s h)"; cases "the (lt_disposer (heap s h))")
     (auto simp: dispose_def mark_dead_def freeJSValue_def val_def action_defs
           split: lifetime_kind.splits if_splits)

lemma undefined_getter_frame:
  "undefined_getter E s = (x, s') \<Longrightarrow> same_below (next_ref s) s s'"
  by (auto simp: undefined_getter_def same_below_def action_defs lifetime_defs
           split: option.splits)


lemma ensuring_Inr:
  "ensuring m c s = (Inr x, s') \<Longrightarrow> \<exists>s1. m s = (Inr x, s1) \<and> c s1 = (Inr (), s')"
  by (auto simp: ensuring_def split: prod.splits sum.splits)

lemma andThen_val_Inr:
  "andThen (val h) f s = (Inr y, s') \<Longrightarrow> alive h s \<and> f (lt_value (heap s h)) s = (Inr y, s')"
  by (auto simp: andThen_def val_def split: if_splits)

lemma ffi_ptr_frame: "ffi_ptr E c s = (x, s') \<Longrightarrow> same_below n s s'"
  by (auto simp: ffi_ptr_def same_below_def)

lemma resolveResult_frame:
  "resolveResult E C p s = (Inr r, s') \<Longrightarrow>
     same_below (next_ref s) s s' \<and> (\<forall>h. res_value r = Some h \<longrightarrow> next_ref s \<le> h)"
  by (auto simp: resolveResult_def same_below_def action_defs lifetime_defs
        split: if_splits)

lemma toPointerArray_Inr:
  "toPointerArray E hs s = (Inr a, s') \<Longrightarrow>
     a = next_ref s \<and> next_ref s' = Suc (next_ref s) \<and> (\<forall>r. r \<noteq> a \<longrightarrow> heap s' r = heap s r)"
  by (auto simp: toPointerArray_def new_Lifetime_def alloc_def ffi_ptr_def
        dest!: andThen_Inr vals_Inr)

lemma callFunction_frame:
  assumes "callFunction E C f t args s = (Inr r, s')"
  shows "same_below (next_ref s) s s' \<and> (\<forall>h. res_value r = Some h \<longrightarrow> next_ref s \<le> h)"
proof -
  from assms obtain arr s1 p s2 where
    arr: "toPointerArray E args s = (Inr arr, s1)"
    and body: "consume arr (\<lambda>argsArrayPtr.
                andThen (val (ctx C)) (\<lambda>cp.
                andThen (val f) (\<lambda>fp.
                andThen (val t) (\<lambda>tp.
                andThen (val argsArrayPtr) (\<lambda>ap.
                ffi_ptr E (QTS_Call cp fp tp (length args) ap)))))) s1 = (Inr p, s2)"
    and res: "resolveResult E C p s2 = (Inr r, s')"
    unfolding callFunction_def
    by (auto dest!: andThen_Inr simp: assertOwned_def split: if_splits)
  from arr have a: "arr = next_ref s" "next_ref s1 = Suc (next_ref s)"
    "\<forall>r. r \<noteq> arr \<longrightarrow> heap s1 r = heap s r"
    using toPointerArray_Inr by blast+
  from body obtain s1' where
    call: "andThen (val (ctx C)) (\<lambda>cp.
                andThen (val f) (\<lambda>fp.
                andThen (val t) (\<lambda>tp.
                andThen (val arr) (\<lambda>ap.
                ffi_ptr E (QTS_Call cp fp tp (length args) ap))))) s1 = (Inr p, s1')"
    and disp: "dispose arr s1' = (Inr (), s2)"
    unfolding consume_def by (auto dest!: ensuring_Inr)
  from call have "same_below (next_ref s1) s1 s1'"
    by (auto dest!: andThen_val_Inr ffi_ptr_frame)
  then have b: "next_ref s1 \<le> next_ref s1'" "\<forall>r<next_ref s1. heap s1' r = heap s1 r"
    by (simp_all add: same_below_def)
  from disp have c: "next_ref s2 = next_ref s1'" "\<forall>r. r \<noteq> arr \<longrightarrow> heap s2 r = heap s1' r"
    using dispose_frame by blast+
  from res have d: "same_below (next_ref s2) s2 s'" "\<forall>h. res_value r = Some h \<longrightarrow> next_ref s2 \<le> h"
    using resolveResult_frame by blast+
  from a b c d show ?thesis
    by (auto simp: same_below_def)
qed


lemma dispose_Inr_dead:
  "dispose h s = (Inr (), s') \<Longrightarrow> lt_kind (heap s h) = Owned \<Longrightarrow>
     \<not> alive h s' \<and> lt_kind (heap s' h) = Owned"
  by (cases "lt_disposer (heap s h)"; cases "the (lt_disposer (heap s h))")
     (auto simp: dispose_def mark_dead_def freeJSValue_def val_def alive_def action_defs
           split: if_splits)

lemma disposeResolvers_frame:
  assumes "disposeResolvers d s = (x, s')"
  shows "next_ref s' = next_ref s \<and>
     (\<forall>r. r \<noteq> d_resolveHandle d \<and> r \<noteq> d_rejectHandle d \<longrightarrow> heap s' r = heap s r)"
  using assms unfolding disposeResolvers_def andThen_def
  by (auto split: if_splits prod.splits sum.splits dest!: dispose_frame)

lemma disposeResolvers_Inr:
  assumes "disposeResolvers d s = (Inr (), s')"
    and "lt_kind (heap s (d_resolveHandle d)) = Owned" "lt_kind (heap s (d_rejectHandle d)) = Owned"
  shows "\<not> alive (d_resolveHandle d) s' \<and> \<not> alive (d_rejectHandle d) s'"
proof -
  from assms(1) obtain s1 where
    one: "(if alive (d_resolveHandle d) s then dispose (d_resolveHandle d) s else (Inr (), s)) = (Inr (), s1)"
    and two: "(if alive (d_rejectHandle d) s1 then dispose (d_rejectHandle d) s1 else (Inr (), s1)) = (Inr (), s')"
    unfolding disposeResolvers_def by (auto dest!: andThen_Inr)
  have r1: "\<not> alive (d_resolveHandle d) s1 \<and> lt_kind (heap s1 (d_resolveHandle d)) = Owned"
    using one assms(2) dispose_Inr_dead [of "d_resolveHandle d" s s1]
    by (auto split: if_splits)
  have j1: "lt_kind (heap s1 (d_rejectHandle d)) = Owned"
  proof (cases "d_rejectHandle d = d_resolveHandle d")
    case True with r1 show ?thesis by simp
  next
    case False
    with one assms(3) show ?thesis
      by (auto split: if_splits dest!: dispose_frame)
  qed
  show ?thesis
  proof (cases "alive (d_rejectHandle d) s1")
    case True
    with two have dj: "dispose (d_rejectHandle d) s1 = (Inr (), s')" by simp
    from dispose_Inr_dead [OF dj j1] have "\<not> alive (d_rejectHandle d) s'" by simp
    moreover have "\<not> alive (d_resolveHandle d) s'"
    proof (cases "d_rejectHandle d = d_resolveHandle d")
      case True with \<open>\<not> alive (d_rejectHandle d) s'\<close> show ?thesis by simp
    next
      case False
      with dispose_frame [OF dj] have "heap s' (d_resolveHandle d) = heap s1 (d_resolveHandle d)"
        by simp
      with r1 show ?thesis by (simp add: alive_def)
    qed
    ultimately show ?thesis by simp
  next
    case False
    with two have "s' = s1" by simp
    with False r1 show ?thesis by simp
  qed
qed

lemma unwrapResult_Inr:
  "unwrapResult E C r s = (Inr x, s') \<Longrightarrow> res_error r = None \<and> x = res_value r \<and> s' = s"
  using unwrapResult_raises [of r _ E C s]
  by (cases "res_error r") (auto simp: unwrapResult_def ret_def)

lemma onSettled_heap:
  "onSettled d s = (x, s') \<Longrightarrow> heap s' = heap s \<and> next_ref s' = next_ref s \<and> x = Inr ()"
  by (auto simp: onSettled_def host_resolve_def)

lemma settle_with_Inr:
  assumes "settle_with E d cb v s = (Inr (), s')"
  shows "\<exists>s3 s4. same_below (next_ref s) s s3 \<and> disposeResolvers d s3 = (Inr (), s4) \<and>
           onSettled d s4 = (Inr (), s')"
proof -
  from assms obtain thisVal sa arg sb r sc res sc' sd s4 where
    u1: "undefined_getter E s = (Inr thisVal, sa)"
    and u2: "(case v of Some h \<Rightarrow> ret h | None \<Rightarrow> undefined_getter E) sa = (Inr arg, sb)"
    and call: "callFunction E (d_owner d) cb thisVal [arg] sb = (Inr r, sc)"
    and unwrap: "unwrapResult E (d_owner d) r sc = (Inr res, sc')"
    and disp: "(case res of Some h \<Rightarrow> dispose h | None \<Rightarrow> raise type_error) sc' = (Inr (), sd)"
    and resolvers: "disposeResolvers d sd = (Inr (), s4)"
    and fire: "onSettled d s4 = (Inr (), s')"
    unfolding settle_with_def by (auto dest!: andThen_Inr)
  from u1 have f1: "same_below (next_ref s) s sa" by (rule undefined_getter_frame)
  from u2 have f2: "same_below (next_ref sa) sa sb"
    by (cases v) (auto simp: ret_def same_below_refl dest: undefined_getter_frame)
  from callFunction_frame [OF call]
  have f3: "same_below (next_ref sb) sb sc" "\<forall>h. res_value r = Some h \<longrightarrow> next_ref sb \<le> h"
    by simp_all
  from unwrapResult_Inr [OF unwrap] have f4: "res = res_value r" "sc' = sc" by simp_all
  from disp obtain h where h: "res = Some h" "dispose h sc' = (Inr (), sd)"
    by (cases res) (auto simp: raise_def)
  from h f4 f3 have fresh: "next_ref sb \<le> h" by simp
  from dispose_frame [OF h(2)] have f5: "next_ref sd = next_ref sc'"
    "\<forall>r. r \<noteq> h \<longrightarrow> heap sd r = heap sc' r" by simp_all
  have "same_below (next_ref s) s sd"
    using f1 f2 f3(1) f4(2) f5 fresh by (auto simp: same_below_def)
  with resolvers fire show ?thesis by blast
qed


lemma settled_run:
  "fst (resolve env0 deferred0 (Some 2) world0) = Inr ()"
  by (simp add: deferred_defs action_defs lifetime_defs context_defs fixture_defs)

lemma settled_run_reject:
  "fst (reject env0 deferred0 None world0) = Inr ()"
  by (simp add: deferred_defs action_defs lifetime_defs context_defs fixture_defs)

lemma disposed_run:
  "fst (deferred_dispose deferred0 world0) = Inr ()"
  by (simp add: deferred_defs action_defs lifetime_defs context_defs fixture_defs)

lemma dispose_kind:
  "dispose h s = (Inr (), s') \<Longrightarrow> lt_kind (heap s r) = Owned \<Longrightarrow> lt_kind (heap s' r) = Owned"
  using dispose_Inr_dead [of h s s'] dispose_frame [of h s "Inr ()" s']
  by (cases "r = h") simp_all

lemma deferred_dispose_Inr:
  assumes "deferred_dispose d s = (Inr (), s')"
    and "lt_kind (heap s (d_resolveHandle d)) = Owned" "lt_kind (heap s (d_rejectHandle d)) = Owned"
  shows "\<not> alive (d_resolveHandle d) s' \<and> \<not> alive (d_rejectHandle d) s'"
proof -
  from assms(1) obtain s1 where
    first: "(if alive (d_handle d) s then dispose (d_handle d) s else (Inr (), s)) = (Inr (), s1)"
    and resolvers: "disposeResolvers d s1 = (Inr (), s')"
    unfolding deferred_dispose_def by (auto dest!: andThen_Inr)
  from first assms(2,3) have kinds: "lt_kind (heap s1 (d_resolveHandle d)) = Owned"
    "lt_kind (heap s1 (d_rejectHandle d)) = Owned"
    by (auto split: if_splits intro: dispose_kind)
  from disposeResolvers_Inr [OF resolvers kinds] show ?thesis .
qed

text \<open>
  C4, as stated: after the first \<open>resolve\<close> or \<open>reject\<close> both callbacks are dead and later
  calls are no-ops. This fails when the first call raises. Here the runtime reports an
  exception for the call of the resolve callback: \<open>resolve\<close> raises the converted error
  before \<open>disposeResolvers\<close> is reached, both callbacks are still alive, and a second
  \<open>resolve\<close> calls the resolve callback again.
\<close>

theorem resolve_after_raise_counterexample:
  "fst (resolve env1 deferred0 (Some 2) world0) =
     Inl (JSError \<lparr>err_name = Some ''RangeError'', err_message = Some ''x'',
                    err_stack = Some []\<rparr>) \<and>
   alive (d_resolveHandle deferred0) (snd (resolve env1 deferred0 (Some 2) world0)) \<and>
   alive (d_rejectHandle deferred0) (snd (resolve env1 deferred0 (Some 2) world0)) \<and>
   invocations (trace (snd (resolve env1 deferred0 (Some 2) world0))) =
     [QTS_Call 50 63 100 1 101] \<and>
   invocations (trace (snd (resolve env1 deferred0 (Some 4)
       (snd (resolve env1 deferred0 (Some 2) world0))))) =
     [QTS_Call 50 63 100 1 101, QTS_Call 50 63 100 1 109]"
  by (simp add: invocations_def deferred_defs action_defs lifetime_defs context_defs
        fixture_defs)

text \<open>
  C4, amended: \<open>resolve\<close> on a deferred promise whose resolve callback is dead, and
  \<open>reject\<close> on one whose reject callback is dead, return at once and leave the world as
  it was: no callback is invoked, nothing is disposed, nothing is raised. When both
  callbacks are owned Lifetimes, they are both dead after a first \<open>resolve\<close> or \<open>reject\<close>
  that returned (the callbacks being allocated before it), and after a \<open>dispose\<close> of the
  deferred promise that returned; every later \<open>resolve\<close> and \<open>reject\<close> is then such a
  no-op. Nothing is said of a first call that raises.
\<close>

theorem settled_resolve_reject_noop:
  "(\<not> alive (d_resolveHandle d) s \<longrightarrow> resolve E d v s = (Inr (), s)) \<and>
   (\<not> alive (d_rejectHandle d) s \<longrightarrow> reject E d v s = (Inr (), s)) \<and>
   ((resolve E d v s = (Inr (), s') \<and> alive (d_resolveHandle d) s \<or>
     reject E d v s = (Inr (), s') \<and> alive (d_rejectHandle d) s) \<and>
    d_resolveHandle d < next_ref s \<and> d_rejectHandle d < next_ref s \<and>
    lt_kind (heap s (d_resolveHandle d)) = Owned \<and> lt_kind (heap s (d_rejectHandle d)) = Owned \<longrightarrow>
      \<not> alive (d_resolveHandle d) s' \<and> \<not> alive (d_rejectHandle d) s' \<and>
      resolve E d w s' = (Inr (), s') \<and> reject E d w s' = (Inr (), s')) \<and>
   (deferred_dispose d s = (Inr (), s') \<and>
    lt_kind (heap s (d_resolveHandle d)) = Owned \<and> lt_kind (heap s (d_rejectHandle d)) = Owned \<longrightarrow>
      \<not> alive (d_resolveHandle d) s' \<and> \<not> alive (d_rejectHandle d) s' \<and>
      resolve E d w s' = (Inr (), s') \<and> reject E d w s' = (Inr (), s'))"
proof (intro conjI impI)
  assume "\<not> alive (d_resolveHandle d) s"
  then show "resolve E d v s = (Inr (), s)" by (simp add: resolve_def)
next
  assume "\<not> alive (d_rejectHandle d) s"
  then show "reject E d v s = (Inr (), s)" by (simp add: reject_def)
next
  assume a: "(resolve E d v s = (Inr (), s') \<and> alive (d_resolveHandle d) s \<or>
     reject E d v s = (Inr (), s') \<and> alive (d_rejectHandle d) s) \<and>
    d_resolveHandle d < next_ref s \<and> d_rejectHandle d < next_ref s \<and>
    lt_kind (heap s (d_resolveHandle d)) = Owned \<and> lt_kind (heap s (d_rejectHandle d)) = Owned"
  then obtain cb where "settle_with E d cb v s = (Inr (), s')"
    by (auto simp: resolve_def reject_def)
  then obtain s3 s4 where below: "same_below (next_ref s) s s3"
    and resolvers: "disposeResolvers d s3 = (Inr (), s4)"
    and fire: "onSettled d s4 = (Inr (), s')"
    using settle_with_Inr by blast
  from below a have kinds: "lt_kind (heap s3 (d_resolveHandle d)) = Owned"
    "lt_kind (heap s3 (d_rejectHandle d)) = Owned"
    by (simp_all add: same_below_def)
  from disposeResolvers_Inr [OF resolvers kinds] onSettled_heap [OF fire]
  have dead: "\<not> alive (d_resolveHandle d) s'" "\<not> alive (d_rejectHandle d) s'"
    by (simp_all add: alive_def)
  then show "\<not> alive (d_resolveHandle d) s'" "\<not> alive (d_rejectHandle d) s'"
    "resolve E d w s' = (Inr (), s')" "reject E d w s' = (Inr (), s')"
    by (simp_all add: resolve_def reject_def)
next
  assume a: "deferred_dispose d s = (Inr (), s') \<and>
    lt_kind (heap s (d_resolveHandle d)) = Owned \<and> lt_kind (heap s (d_rejectHandle d)) = Owned"
  then have dead: "\<not> alive (d_resolveHandle d) s'" "\<not> alive (d_rejectHandle d) s'"
    using deferred_dispose_Inr [of d s s'] by simp_all
  then show "\<not> alive (d_resolveHandle d) s'" "\<not> alive (d_rejectHandle d) s'"
    "resolve E d w s' = (Inr (), s')" "reject E d w s' = (Inr (), s')"
    by (simp_all add: resolve_def reject_def)
qed

theorem settled_resolve_reject_noop_witness:
  "\<not> alive 5 (snd (resolve env0 deferred0 (Some 2) world0)) \<and>
   \<not> alive 6 (snd (resolve env0 deferred0 (Some 2) world0)) \<and>
   resolve env0 deferred0 (Some 4) (snd (resolve env0 deferred0 (Some 2) world0)) =
     (Inr (), snd (resolve env0 deferred0 (Some 2) world0)) \<and>
   reject env0 deferred0 None (snd (resolve env0 deferred0 (Some 2) world0)) =
     (Inr (), snd (resolve env0 deferred0 (Some 2) world0)) \<and>
   \<not> alive 5 (snd (reject env0 deferred0 None world0)) \<and>
   \<not> alive 6 (snd (reject env0 deferred0 None world0)) \<and>
   resolve env0 deferred0 (Some 4) (snd (reject env0 deferred0 None world0)) =
     (Inr (), snd (reject env0 deferred0 None world0)) \<and>
   reject env0 deferred0 None (snd (reject env0 deferred0 None world0)) =
     (Inr (), snd (reject env0 deferred0 None world0)) \<and>
   \<not> alive 5 (snd (deferred_dispose deferred0 world0)) \<and>
   \<not> alive 6 (snd (deferred_dispose deferred0 world0)) \<and>
   resolve env0 deferred0 (Some 4) (snd (deferred_dispose deferred0 world0)) =
     (Inr (), snd (deferred_dispose deferred0 world0)) \<and>
   reject env0 deferred0 None (snd (deferred_dispose deferred0 world0)) =
     (Inr (), snd (deferred_dispose deferred0 world0))"
proof -
  have run: "resolve env0 deferred0 (Some 2) world0 =
      (Inr (), snd (resolve env0 deferred0 (Some 2) world0))"
    using settled_run by (cases "resolve env0 deferred0 (Some 2) world0") simp
  have run_reject: "reject env0 deferred0 None world0 =
      (Inr (), snd (reject env0 deferred0 None world0))"
    using settled_run_reject by (cases "reject env0 deferred0 None world0") simp
  have run_dispose: "deferred_dispose deferred0 world0 =
      (Inr (), snd (deferred_dispose deferred0 world0))"
    using disposed_run by (cases "deferred_dispose deferred0 world0") simp
  have pre: "alive (d_resolveHandle deferred0) world0" "alive (d_rejectHandle deferred0) world0"
    "d_resolveHandle deferred0 < next_ref world0" "d_rejectHandle deferred0 < next_ref world0"
    "lt_kind (heap world0 (d_resolveHandle deferred0)) = Owned"
    "lt_kind (heap world0 (d_rejectHandle deferred0)) = Owned"
    by (simp_all add: alive_def fixture_defs)
  have h: "d_resolveHandle deferred0 = 5" "d_rejectHandle deferred0 = 6"
    by (simp_all add: deferred0_def)
  from settled_resolve_reject_noop [where E = env0 and d = deferred0 and v = "Some 2"
      and s = world0 and s' = "snd (resolve env0 deferred0 (Some 2) world0)" and w = "Some 4"]
    settled_resolve_reject_noop [where E = env0 and d = deferred0 and v = "Some 2"
      and s = world0 and s' = "snd (resolve env0 deferred0 (Some 2) world0)" and w = None]
    run pre
  have one: "\<not> alive 5 (snd (resolve env0 deferred0 (Some 2) world0)) \<and>
   \<not> alive 6 (snd (resolve env0 deferred0 (Some 2) world0)) \<and>
   resolve env0 deferred0 (Some 4) (snd (resolve env0 deferred0 (Some 2) world0)) =
     (Inr (), snd (resolve env0 deferred0 (Some 2) world0)) \<and>
   reject env0 deferred0 None (snd (resolve env0 deferred0 (Some 2) world0)) =
     (Inr (), snd (resolve env0 deferred0 (Some 2) world0))"
    unfolding h by simp
  from settled_resolve_reject_noop [where E = env0 and d = deferred0 and v = None
      and s = world0 and s' = "snd (reject env0 deferred0 None world0)" and w = "Some 4"]
    settled_resolve_reject_noop [where E = env0 and d = deferred0 and v = None
      and s = world0 and s' = "snd (reject env0 deferred0 None world0)" and w = None]
    run_reject pre
  have two: "\<not> alive 5 (snd (reject env0 deferred0 None world0)) \<and>
   \<not> alive 6 (snd (reject env0 deferred0 None world0)) \<and>
   resolve env0 deferred0 (Some 4) (snd (reject env0 deferred0 None world0)) =
     (Inr (), snd (reject env0 deferred0 None world0)) \<and>
   reject env0 deferred0 None (snd (reject env0 deferred0 None world0)) =
     (Inr (), snd (reject env0 deferred0 None world0))"
    unfolding h by simp
  from settled_resolve_reject_noop [where E = env0 and d = deferred0
      and s = world0 and s' = "snd (deferred_dispose deferred0 world0)" and w = "Some 4"]
    settled_resolve_reject_noop [where E = env0 and d = deferred0
      and s = world0 and s' = "snd (deferred_dispose deferred0 world0)" and w = None]
    run_dispose pre
  have three: "\<not> alive 5 (snd (deferred_dispose deferred0 world0)) \<and>
   \<not> alive 6 (snd (deferred_dispose deferred0 world0)) \<and>
   resolve env0 deferred0 (Some 4) (snd (deferred_dispose deferred0 world0)) =
     (Inr (), snd (deferred_dispose deferred0 world0)) \<and>
   reject env0 deferred0 None (snd (deferred_dispose deferred0 world0)) =
     (Inr (), snd (deferred_dispose deferred0 world0))"
    unfolding h by simp
  from one two three show ?thesis by simp
qed

text \<open>
  C10: a \<open>resolve\<close> or \<open>reject\<close> that returns leaves the Lifetime of the promise handle
  exactly as it was, provided it is an allocated Lifetime other than the two callbacks:
  the handle is still alive, and so is the deferred promise. It stays so until the
  handle is disposed: after \<open>dispose()\<close> of the deferred promise an owned promise handle is
  dead.
\<close>

theorem settling_keeps_promise_handle:
  assumes "resolve E d v s = (Inr (), s') \<or> reject E d v s = (Inr (), s')"
    and "alive (d_handle d) s" "d_handle d < next_ref s"
    and "d_handle d \<noteq> d_resolveHandle d" "d_handle d \<noteq> d_rejectHandle d"
  shows "heap s' (d_handle d) = heap s (d_handle d) \<and> alive (d_handle d) s' \<and>
     deferred_alive d s' \<and>
     (\<forall>s''. deferred_dispose d s' = (Inr (), s'') \<and> lt_kind (heap s (d_handle d)) = Owned \<longrightarrow>
        \<not> alive (d_handle d) s'')"
proof -
  have same: "heap s' (d_handle d) = heap s (d_handle d)"
  proof (cases "s' = s")
    case True then show ?thesis by simp
  next
    case False
    with assms(1) obtain cb where "settle_with E d cb v s = (Inr (), s')"
      by (auto simp: resolve_def reject_def split: if_splits)
    then obtain s3 s4 where below: "same_below (next_ref s) s s3"
      and resolvers: "disposeResolvers d s3 = (Inr (), s4)"
      and fire: "onSettled d s4 = (Inr (), s')"
      using settle_with_Inr by blast
    from below assms(3) have "heap s3 (d_handle d) = heap s (d_handle d)"
      by (simp add: same_below_def)
    moreover from disposeResolvers_frame [OF resolvers] assms(4,5)
    have "heap s4 (d_handle d) = heap s3 (d_handle d)" by simp
    moreover from onSettled_heap [OF fire] have "heap s' = heap s4" by simp
    ultimately show ?thesis by simp
  qed
  with assms(2) have live: "alive (d_handle d) s'" by (simp add: alive_def)
  have gone: "\<not> alive (d_handle d) s''"
    if run: "deferred_dispose d s' = (Inr (), s'')" and owned: "lt_kind (heap s (d_handle d)) = Owned"
    for s''
  proof -
    from run live obtain s1 where one: "dispose (d_handle d) s' = (Inr (), s1)"
      and two: "disposeResolvers d s1 = (Inr (), s'')"
      unfolding deferred_dispose_def by (auto dest!: andThen_Inr)
    from owned same have "lt_kind (heap s' (d_handle d)) = Owned" by simp
    from dispose_Inr_dead [OF one this] have "\<not> alive (d_handle d) s1" by simp
    moreover from disposeResolvers_frame [OF two] assms(4,5)
    have "heap s'' (d_handle d) = heap s1 (d_handle d)" by simp
    ultimately show ?thesis by (simp add: alive_def)
  qed
  from same live gone show ?thesis by (simp add: deferred_alive_def)
qed

theorem settling_keeps_promise_handle_witness:
  "alive 4 (snd (resolve env0 deferred0 (Some 2) world0)) \<and>
   deferred_alive deferred0 (snd (resolve env0 deferred0 (Some 2) world0)) \<and>
   heap (snd (resolve env0 deferred0 (Some 2) world0)) 4 = own 62"
proof -
  have run: "resolve env0 deferred0 (Some 2) world0 =
      (Inr (), snd (resolve env0 deferred0 (Some 2) world0))"
    using settled_run by (cases "resolve env0 deferred0 (Some 2) world0") simp
  have pre: "alive (d_handle deferred0) world0" "d_handle deferred0 < next_ref world0"
    "d_handle deferred0 \<noteq> d_resolveHandle deferred0"
    "d_handle deferred0 \<noteq> d_rejectHandle deferred0"
    by (simp_all add: alive_def fixture_defs)
  have h: "d_handle deferred0 = 4" "heap world0 4 = own 62"
    by (simp_all add: deferred0_def world0_def heap0_def)
  from settling_keeps_promise_handle [OF disjI1 [OF run] pre]
  show ?thesis unfolding h by simp
qed

section \<open>Settling a deferred promise\<close>













section \<open>Injection of a host error\<close>

lemma length_set_prop_calls [simp]: "length (set_prop_calls E n cp ep key text) = 9"
  by (simp add: set_prop_calls_def Let_def)









section \<open>Settling an inbound call\<close>



















end
